theory Spec2Isabelle
  imports Main "HOL-Library.Word"
begin

unbundle bit_operations_syntax

section \<open>The vote operator: a shallow embedding of \<^verbatim>\<open>index.js\<close>\<close>

text \<open>
  \<^verbatim>\<open>src/index.js\<close> holds three revisions of the server, one after the other.
  The first one (lines 1 to 391) stores a vote without asking for a caller signature; its
  functions carry the suffix \<open>_v1\<close> here.  The last one (lines 485 to 993) demands and
  checks a caller signature; its functions keep the names of the source.  The short
  callback-style revision in between (lines 392 to 484) is not modelled.

  Library functions (\<^verbatim>\<open>JSON\<close>, \<^verbatim>\<open>parseInt\<close>, \<^verbatim>\<open>ethers\<close>) are modelled
  after their specifications; the elliptic-curve primitives of \<^verbatim>\<open>ethers\<close> are
  parameters of the model.
\<close>

subsection \<open>JavaScript values\<close>

text \<open>
  A JavaScript string is a sequence of UTF-16 code units.  The model covers the strings all
  of whose code units are below \<open>0x100\<close>: a \<^typ>\<open>char\<close> is one code unit and
  \<^const>\<open>length\<close> is the \<^verbatim>\<open>.length\<close> of the string.

  A number is carried as an integer: the model covers the safe integers, those of
  magnitude at most \<open>2^53 - 1\<close> (\<^verbatim>\<open>Number.MAX_SAFE_INTEGER\<close>), which a JavaScript
  number holds exactly and \<^verbatim>\<open>JSON.stringify\<close> prints as a plain run of decimal
  digits.  Fractions, exponents, the negative zero and the integers beyond that bound are
  outside the model: \<open>js_value\<close> below does not admit them and \<open>JSON_parse\<close> gives no
  value for them.

  An object is the list of its own properties in the order JavaScript enumerates them.
\<close>

type_synonym byte = "8 word"

definition MAX_SAFE_INTEGER :: int where
  "MAX_SAFE_INTEGER = 9007199254740991"

datatype json =
    JNull
  | JBool bool
  | JNum int
  | JStr string
  | JArr "json list"
  | JObj "(string \<times> json) list"

text \<open>\<^verbatim>\<open>!x\<close> is \<open>\<not> truthy x\<close>; an absent property reads as \<^verbatim>\<open>undefined\<close>,
  that is \<^const>\<open>None\<close>.\<close>

fun truthy :: "json option \<Rightarrow> bool" where
  "truthy None = False"
| "truthy (Some JNull) = False"
| "truthy (Some (JBool b)) = b"
| "truthy (Some (JNum n)) = (n \<noteq> 0)"
| "truthy (Some (JStr s)) = (s \<noteq> [])"
| "truthy (Some (JArr xs)) = True"
| "truthy (Some (JObj kvs)) = True"

fun typeof :: "json option \<Rightarrow> string" where
  "typeof None = ''undefined''"
| "typeof (Some JNull) = ''object''"
| "typeof (Some (JBool b)) = ''boolean''"
| "typeof (Some (JNum n)) = ''number''"
| "typeof (Some (JStr s)) = ''string''"
| "typeof (Some (JArr xs)) = ''object''"
| "typeof (Some (JObj kvs)) = ''object''"

subsection \<open>\<^verbatim>\<open>JSON.stringify\<close>\<close>

definition hexdig :: "nat \<Rightarrow> char" where
  "hexdig n = ''0123456789abcdef'' ! (n mod 16)"

text \<open>\<^verbatim>\<open>QuoteJSONString\<close>: the two-character escapes, \<^verbatim>\<open>\u00xx\<close> for the other
  control characters, every other code unit as it is.\<close>

definition quote_char :: "char \<Rightarrow> string" where
  "quote_char c =
     (if c = CHR 0x08 then [CHR 0x5C, CHR ''b'']
      else if c = CHR 0x09 then [CHR 0x5C, CHR ''t'']
      else if c = CHR 0x0A then [CHR 0x5C, CHR ''n'']
      else if c = CHR 0x0C then [CHR 0x5C, CHR ''f'']
      else if c = CHR 0x0D then [CHR 0x5C, CHR ''r'']
      else if c = CHR 0x22 then [CHR 0x5C, CHR 0x22]
      else if c = CHR 0x5C then [CHR 0x5C, CHR 0x5C]
      else if (of_char c :: nat) < 32
        then [CHR 0x5C, CHR ''u'', CHR ''0'', CHR ''0'',
              hexdig ((of_char c :: nat) div 16), hexdig ((of_char c :: nat) mod 16)]
      else [c])"

definition QuoteJSONString :: "string \<Rightarrow> string" where
  "QuoteJSONString s = CHR 0x22 # concat (map quote_char s) @ [CHR 0x22]"

definition digit_char :: "nat \<Rightarrow> char" where
  "digit_char d = ''0123456789'' ! (d mod 10)"

function digits :: "nat \<Rightarrow> string" where
  "digits n = (if n < 10 then [digit_char n] else digits (n div 10) @ [digit_char (n mod 10)])"
  by pat_completeness auto
termination by (relation "measure id") auto

declare digits.simps [simp del]

text \<open>\<^verbatim>\<open>Number::toString\<close> of a safe integer: its decimal digits, after a minus sign
  when it is negative.\<close>

definition Number_toString :: "int \<Rightarrow> string" where
  "Number_toString n = (if n < 0 then CHR ''-'' # digits (nat (- n)) else digits (nat n))"

fun JSON_stringify :: "json \<Rightarrow> string"
  and SerializeJSONArray :: "json list \<Rightarrow> string"
  and SerializeJSONObject :: "(string \<times> json) list \<Rightarrow> string"
where
  "JSON_stringify JNull = ''null''"
| "JSON_stringify (JBool b) = (if b then ''true'' else ''false'')"
| "JSON_stringify (JNum n) = Number_toString n"
| "JSON_stringify (JStr s) = QuoteJSONString s"
| "JSON_stringify (JArr xs) = CHR ''['' # SerializeJSONArray xs @ '']''"
| "JSON_stringify (JObj kvs) = CHR ''{'' # SerializeJSONObject kvs @ ''}''"
| "SerializeJSONArray [] = []"
| "SerializeJSONArray [x] = JSON_stringify x"
| "SerializeJSONArray (x # y # ys) = JSON_stringify x @ CHR '','' # SerializeJSONArray (y # ys)"
| "SerializeJSONObject [] = []"
| "SerializeJSONObject [(k, v)] = QuoteJSONString k @ CHR '':'' # JSON_stringify v"
| "SerializeJSONObject ((k, v) # kv # kvs) =
     QuoteJSONString k @ CHR '':'' # JSON_stringify v @ CHR '','' # SerializeJSONObject (kv # kvs)"

subsection \<open>Property order of objects\<close>

text \<open>
  JavaScript enumerates the own properties of an object with the array indices first, in
  ascending numeric order, and the other keys after them in the order of their creation.
  An array index is the canonical decimal form of an integer below \<open>2^32 - 1\<close>.
\<close>

definition is_digit :: "char \<Rightarrow> bool" where
  "is_digit c = (48 \<le> (of_char c :: nat) \<and> (of_char c :: nat) \<le> 57)"

definition digit_val :: "char \<Rightarrow> nat" where
  "digit_val c = of_char c - 48"

fun parse_digits :: "nat \<Rightarrow> string \<Rightarrow> nat \<times> string" where
  "parse_digits acc [] = (acc, [])"
| "parse_digits acc (c # cs) =
     (if is_digit c then parse_digits (acc * 10 + digit_val c) cs else (acc, c # cs))"

definition array_index :: "string \<Rightarrow> nat option" where
  "array_index k =
     (case k of
        [] \<Rightarrow> None
      | c # cs \<Rightarrow>
          if list_all is_digit k \<and> (cs = [] \<or> c \<noteq> CHR ''0'') \<and> fst (parse_digits 0 k) \<le> 4294967294
          then Some (fst (parse_digits 0 k)) else None)"

definition key_before :: "string \<Rightarrow> string \<Rightarrow> bool" where
  "key_before a b =
     (case array_index a of
        Some i \<Rightarrow> (case array_index b of Some j \<Rightarrow> i < j | None \<Rightarrow> True)
      | None \<Rightarrow> (case array_index b of Some j \<Rightarrow> False | None \<Rightarrow> a \<noteq> b))"

fun replace_value :: "string \<Rightarrow> json \<Rightarrow> (string \<times> json) list \<Rightarrow> (string \<times> json) list" where
  "replace_value k v [] = []"
| "replace_value k v ((k', v') # ps) =
     (if k' = k then (k, v) # ps else (k', v') # replace_value k v ps)"

text \<open>\<^verbatim>\<open>CreateDataProperty\<close>: an existing key keeps its place and takes the new
  value, a new key goes to its place in the enumeration order.\<close>

definition CreateDataProperty :: "(string \<times> json) list \<Rightarrow> string \<times> json \<Rightarrow> (string \<times> json) list" where
  "CreateDataProperty ps kv =
     (if fst kv \<in> set (map fst ps) then replace_value (fst kv) (snd kv) ps
      else takeWhile (\<lambda>p. key_before (fst p) (fst kv)) ps @ kv #
           dropWhile (\<lambda>p. key_before (fst p) (fst kv)) ps)"

definition object_of :: "(string \<times> json) list \<Rightarrow> json" where
  "object_of kvs = JObj (foldl CreateDataProperty [] kvs)"

text \<open>The values JavaScript can hold: every number is a safe integer and every object
  lists its keys in enumeration order (which makes them distinct).\<close>

fun js_value :: "json \<Rightarrow> bool"
  and js_values :: "json list \<Rightarrow> bool"
  and js_props :: "(string \<times> json) list \<Rightarrow> bool"
where
  "js_value (JNum n) = (\<bar>n\<bar> \<le> MAX_SAFE_INTEGER)"
| "js_value (JArr xs) = js_values xs"
| "js_value (JObj kvs) = (sorted_wrt key_before (map fst kvs) \<and> js_props kvs)"
| "js_value v = True"
| "js_values [] = True"
| "js_values (x # xs) = (js_value x \<and> js_values xs)"
| "js_props [] = True"
| "js_props ((k, v) # kvs) = (js_value v \<and> js_props kvs)"

subsection \<open>\<^verbatim>\<open>JSON.parse\<close>\<close>

definition is_ws :: "char \<Rightarrow> bool" where
  "is_ws c = (c = CHR 0x20 \<or> c = CHR 0x09 \<or> c = CHR 0x0A \<or> c = CHR 0x0D)"

definition skip_ws :: "string \<Rightarrow> string" where
  "skip_ws s = dropWhile is_ws s"

definition hexval :: "char \<Rightarrow> nat option" where
  "hexval c =
     (let n = (of_char c :: nat) in
      if 48 \<le> n \<and> n \<le> 57 then Some (n - 48)
      else if 97 \<le> n \<and> n \<le> 102 then Some (n - 87)
      else if 65 \<le> n \<and> n \<le> 70 then Some (n - 55)
      else None)"

definition hex4 :: "char \<Rightarrow> char \<Rightarrow> char \<Rightarrow> char \<Rightarrow> nat option" where
  "hex4 a b c d =
     (case (hexval a, hexval b, hexval c, hexval d) of
        (Some w, Some x, Some y, Some z) \<Rightarrow> Some (((w * 16 + x) * 16 + y) * 16 + z)
      | _ \<Rightarrow> None)"

definition unescape :: "char \<Rightarrow> char option" where
  "unescape e =
     (if e = CHR 0x22 then Some (CHR 0x22)
      else if e = CHR 0x5C then Some (CHR 0x5C)
      else if e = CHR ''/'' then Some (CHR ''/'')
      else if e = CHR ''b'' then Some (CHR 0x08)
      else if e = CHR ''f'' then Some (CHR 0x0C)
      else if e = CHR ''n'' then Some (CHR 0x0A)
      else if e = CHR ''r'' then Some (CHR 0x0D)
      else if e = CHR ''t'' then Some (CHR 0x09)
      else None)"

definition cons_result :: "'a \<Rightarrow> ('a list \<times> string) option \<Rightarrow> ('a list \<times> string) option" where
  "cons_result x r = (case r of None \<Rightarrow> None | Some (xs, rest) \<Rightarrow> Some (x # xs, rest))"

text \<open>The characters of a string literal, after its opening quote, up to the closing
  one.  A \<^verbatim>\<open>\uXXXX\<close> escape of a code unit from \<open>0x100\<close> on has no value in the
  model and gives \<^const>\<open>None\<close>, as a syntax error does.\<close>

fun parse_string_chars :: "string \<Rightarrow> (string \<times> string) option" where
  "parse_string_chars [] = None"
| "parse_string_chars (c # cs) =
     (if c = CHR 0x22 then Some ([], cs)
      else if c = CHR 0x5C then
        (case cs of
           [] \<Rightarrow> None
         | e # r \<Rightarrow>
             if e = CHR ''u'' then
               (case r of
                  h1 # h2 # h3 # h4 # r' \<Rightarrow>
                    (case hex4 h1 h2 h3 h4 of
                       None \<Rightarrow> None
                     | Some n \<Rightarrow> if n < 256 then cons_result (char_of n) (parse_string_chars r') else None)
                | _ \<Rightarrow> None)
             else
               (case unescape e of
                  None \<Rightarrow> None
                | Some x \<Rightarrow> cons_result x (parse_string_chars r)))
      else if (of_char c :: nat) < 32 then None
      else cons_result c (parse_string_chars cs))"

text \<open>A number literal: an optional minus sign and an integer part without leading
  zeros.  A fraction, an exponent, the negative zero \<^verbatim>\<open>-0\<close> and an integer beyond
  \<^const>\<open>MAX_SAFE_INTEGER\<close> have no value in the model and give \<^const>\<open>None\<close>.\<close>

definition parse_number :: "string \<Rightarrow> (int \<times> string) option" where
  "parse_number s =
     (let neg = (s \<noteq> [] \<and> hd s = CHR ''-'');
          s1 = (if neg then tl s else s)
      in case s1 of
           [] \<Rightarrow> None
         | c # cs \<Rightarrow>
             if \<not> is_digit c then None
             else
               let (n, r) = (if c = CHR ''0'' then (0, cs) else parse_digits 0 s1)
               in if r \<noteq> [] \<and> (hd r = CHR ''.'' \<or> hd r = CHR ''e'' \<or> hd r = CHR ''E'') then None
                  else if MAX_SAFE_INTEGER < int n \<or> (neg \<and> n = 0) then None
                  else Some (if neg then - int n else int n, r))"

definition parse_literal :: "string \<Rightarrow> json \<Rightarrow> string \<Rightarrow> (json \<times> string) option" where
  "parse_literal word v s =
     (if take (length word) s = word then Some (v, drop (length word) s) else None)"

text \<open>The recursive descent; the first argument bounds the depth of the calls, and
  \<open>JSON_parse\<close> starts it with the length of the text.\<close>

fun parse_value :: "nat \<Rightarrow> string \<Rightarrow> (json \<times> string) option"
  and parse_elements :: "nat \<Rightarrow> string \<Rightarrow> (json list \<times> string) option"
  and parse_members :: "nat \<Rightarrow> string \<Rightarrow> ((string \<times> json) list \<times> string) option"
where
  "parse_value 0 s = None"
| "parse_value (Suc n) s =
     (case skip_ws s of
        [] \<Rightarrow> None
      | c # cs \<Rightarrow>
          if c = CHR ''{'' then
            (case skip_ws cs of
               [] \<Rightarrow> None
             | d # ds \<Rightarrow>
                 if d = CHR ''}'' then Some (JObj [], ds)
                 else (case parse_members n (d # ds) of
                         None \<Rightarrow> None
                       | Some (kvs, r) \<Rightarrow> Some (object_of kvs, r)))
          else if c = CHR ''['' then
            (case skip_ws cs of
               [] \<Rightarrow> None
             | d # ds \<Rightarrow>
                 if d = CHR '']'' then Some (JArr [], ds)
                 else (case parse_elements n (d # ds) of
                         None \<Rightarrow> None
                       | Some (vs, r) \<Rightarrow> Some (JArr vs, r)))
          else if c = CHR 0x22 then
            (case parse_string_chars cs of None \<Rightarrow> None | Some (x, r) \<Rightarrow> Some (JStr x, r))
          else if c = CHR ''t'' then parse_literal ''true'' (JBool True) (c # cs)
          else if c = CHR ''f'' then parse_literal ''false'' (JBool False) (c # cs)
          else if c = CHR ''n'' then parse_literal ''null'' JNull (c # cs)
          else (case parse_number (c # cs) of None \<Rightarrow> None | Some (i, r) \<Rightarrow> Some (JNum i, r)))"
| "parse_elements 0 s = None"
| "parse_elements (Suc n) s =
     (case parse_value n s of
        None \<Rightarrow> None
      | Some (v, r) \<Rightarrow>
          (case skip_ws r of
             [] \<Rightarrow> None
           | c # cs \<Rightarrow>
               if c = CHR '','' then cons_result v (parse_elements n cs)
               else if c = CHR '']'' then Some ([v], cs)
               else None))"
| "parse_members 0 s = None"
| "parse_members (Suc n) s =
     (case skip_ws s of
        [] \<Rightarrow> None
      | q # cs \<Rightarrow>
          if q \<noteq> CHR 0x22 then None
          else
            (case parse_string_chars cs of
               None \<Rightarrow> None
             | Some (k, r) \<Rightarrow>
                 (case skip_ws r of
                    [] \<Rightarrow> None
                  | c # r1 \<Rightarrow>
                      if c \<noteq> CHR '':'' then None
                      else
                        (case parse_value n r1 of
                           None \<Rightarrow> None
                         | Some (v, r2) \<Rightarrow>
                             (case skip_ws r2 of
                                [] \<Rightarrow> None
                              | d # r3 \<Rightarrow>
                                  if d = CHR '','' then cons_result (k, v) (parse_members n r3)
                                  else if d = CHR ''}'' then Some ([(k, v)], r3)
                                  else None)))))"

definition JSON_parse :: "string \<Rightarrow> json option" where
  "JSON_parse s =
     (case parse_value (length s) s of
        None \<Rightarrow> None
      | Some (v, r) \<Rightarrow> if skip_ws r = [] then Some v else None)"

subsection \<open>Bytes and hexadecimal strings\<close>

text \<open>\<^verbatim>\<open>ethers.toUtf8Bytes\<close>: one byte for a code unit below \<open>0x80\<close>, two bytes for
  the others of the model.\<close>

definition utf8_char :: "char \<Rightarrow> byte list" where
  "utf8_char c =
     (let n = (of_char c :: nat) in
      if n < 128 then [word_of_nat n]
      else [word_of_nat (192 + n div 64), word_of_nat (128 + n mod 64)])"

definition toUtf8Bytes :: "string \<Rightarrow> byte list" where
  "toUtf8Bytes s = concat (map utf8_char s)"

definition hex_byte :: "byte \<Rightarrow> string" where
  "hex_byte b = [hexdig (unat b div 16), hexdig (unat b mod 16)]"

text \<open>\<^verbatim>\<open>ethers.hexlify\<close>\<close>

definition hexlify :: "byte list \<Rightarrow> string" where
  "hexlify bs = ''0x'' @ concat (map hex_byte bs)"

fun hex_pairs :: "string \<Rightarrow> byte list option" where
  "hex_pairs [] = Some []"
| "hex_pairs [c] = None"
| "hex_pairs (a # b # cs) =
     (case (hexval a, hexval b, hex_pairs cs) of
        (Some h, Some l, Some bs) \<Rightarrow> Some (word_of_nat (h * 16 + l) # bs)
      | _ \<Rightarrow> None)"

text \<open>\<^verbatim>\<open>ethers.getBytes\<close> of a string: \<^verbatim>\<open>/^0x(?:[0-9a-f][0-9a-f])*$/i\<close>, or it
  throws (\<^const>\<open>None\<close>).\<close>

definition getBytes :: "string \<Rightarrow> byte list option" where
  "getBytes s = (if take 2 s = ''0x'' then hex_pairs (drop 2 s) else None)"

text \<open>\<^verbatim>\<open>ethers.isHexString(value, length)\<close> of a string:
  \<^verbatim>\<open>/^0x[0-9A-Fa-f]*$/\<close> and, when a length is given,
  \<^verbatim>\<open>value.length === 2 + 2 * length\<close>.\<close>

definition isHexString :: "string \<Rightarrow> nat option \<Rightarrow> bool" where
  "isHexString v len =
     (take 2 v = ''0x'' \<and> list_all (\<lambda>c. hexval c \<noteq> None) (drop 2 v) \<and>
      (case len of None \<Rightarrow> True | Some n \<Rightarrow> length v = 2 + 2 * n))"

text \<open>\<^verbatim>\<open>String.prototype.toLowerCase\<close> on the code units of the model.\<close>

definition lower_char :: "char \<Rightarrow> char" where
  "lower_char c =
     (let n = (of_char c :: nat) in
      if (65 \<le> n \<and> n \<le> 90) \<or> (192 \<le> n \<and> n \<le> 222 \<and> n \<noteq> 215) then char_of (n + 32) else c)"

definition toLowerCase :: "string \<Rightarrow> string" where
  "toLowerCase s = map lower_char s"

subsection \<open>Keccak-256\<close>

text \<open>
  \<^verbatim>\<open>ethers.keccak256\<close> is Keccak with a rate of 136 bytes, the padding byte
  \<open>0x01\<close> and 32 bytes of output.  The state is five planes of five 64-bit lanes; a
  plane holds the lanes \<open>x = 0..4\<close> of one \<open>y\<close>.
\<close>

type_synonym lane = "64 word"

datatype plane = Plane lane lane lane lane lane
datatype kstate = KState plane plane plane plane plane

definition rotl64 :: "lane \<Rightarrow> nat \<Rightarrow> lane" where
  "rotl64 w n = or (push_bit n (take_bit (64 - n) w)) (drop_bit (64 - n) w)"

fun xor_plane :: "plane \<Rightarrow> plane \<Rightarrow> plane" where
  "xor_plane (Plane a0 a1 a2 a3 a4) (Plane b0 b1 b2 b3 b4) =
     Plane (xor a0 b0) (xor a1 b1) (xor a2 b2) (xor a3 b3) (xor a4 b4)"

fun xor_state :: "kstate \<Rightarrow> kstate \<Rightarrow> kstate" where
  "xor_state (KState a b c d e) (KState a' b' c' d' e') =
     KState (xor_plane a a') (xor_plane b b') (xor_plane c c') (xor_plane d d') (xor_plane e e')"

fun theta_c :: "kstate \<Rightarrow> plane" where
  "theta_c (KState a b c d e) = xor_plane a (xor_plane b (xor_plane c (xor_plane d e)))"

fun theta_d :: "plane \<Rightarrow> plane" where
  "theta_d (Plane c0 c1 c2 c3 c4) =
     Plane (xor c4 (rotl64 c1 1)) (xor c0 (rotl64 c2 1)) (xor c1 (rotl64 c3 1))
           (xor c2 (rotl64 c4 1)) (xor c3 (rotl64 c0 1))"

fun theta_apply :: "plane \<Rightarrow> kstate \<Rightarrow> kstate" where
  "theta_apply p (KState a b c d e) =
     KState (xor_plane a p) (xor_plane b p) (xor_plane c p) (xor_plane d p) (xor_plane e p)"

definition theta :: "kstate \<Rightarrow> kstate" where
  "theta s = theta_apply (theta_d (theta_c s)) s"

fun rho_pi :: "kstate \<Rightarrow> kstate" where
  "rho_pi (KState (Plane a0 a1 a2 a3 a4) (Plane b0 b1 b2 b3 b4) (Plane c0 c1 c2 c3 c4) (Plane d0 d1 d2 d3 d4) (Plane e0 e1 e2 e3 e4)) =
    KState
      (Plane (rotl64 a0 0) (rotl64 b1 44) (rotl64 c2 43) (rotl64 d3 21) (rotl64 e4 14))
      (Plane (rotl64 a3 28) (rotl64 b4 20) (rotl64 c0 3) (rotl64 d1 45) (rotl64 e2 61))
      (Plane (rotl64 a1 1) (rotl64 b2 6) (rotl64 c3 25) (rotl64 d4 8) (rotl64 e0 18))
      (Plane (rotl64 a4 27) (rotl64 b0 36) (rotl64 c1 10) (rotl64 d2 15) (rotl64 e3 56))
      (Plane (rotl64 a2 62) (rotl64 b3 55) (rotl64 c4 39) (rotl64 d0 41) (rotl64 e1 2))"

definition not64 :: "lane \<Rightarrow> lane" where
  "not64 w = xor w 0xFFFFFFFFFFFFFFFF"

fun chi_plane :: "plane \<Rightarrow> plane" where
  "chi_plane (Plane b0 b1 b2 b3 b4) =
     Plane (xor b0 (and (not64 b1) b2)) (xor b1 (and (not64 b2) b3)) (xor b2 (and (not64 b3) b4))
           (xor b3 (and (not64 b4) b0)) (xor b4 (and (not64 b0) b1))"

fun chi :: "kstate \<Rightarrow> kstate" where
  "chi (KState a b c d e) = KState (chi_plane a) (chi_plane b) (chi_plane c) (chi_plane d) (chi_plane e)"

fun iota :: "lane \<Rightarrow> kstate \<Rightarrow> kstate" where
  "iota rc (KState (Plane a0 a1 a2 a3 a4) b c d e) = KState (Plane (xor a0 rc) a1 a2 a3 a4) b c d e"

definition keccak_round :: "lane \<Rightarrow> kstate \<Rightarrow> kstate" where
  "keccak_round rc s = iota rc (chi (rho_pi (theta s)))"

fun keccak_rounds :: "lane list \<Rightarrow> kstate \<Rightarrow> kstate" where
  "keccak_rounds [] s = s"
| "keccak_rounds (rc # rcs) s = keccak_rounds rcs (keccak_round rc s)"

definition keccak_rc :: "lane list" where
  "keccak_rc = [0x0000000000000001, 0x0000000000008082, 0x800000000000808A, 0x8000000080008000,
    0x000000000000808B, 0x0000000080000001, 0x8000000080008081, 0x8000000000008009,
    0x000000000000008A, 0x0000000000000088, 0x0000000080008009, 0x000000008000000A,
    0x000000008000808B, 0x800000000000008B, 0x8000000000008089, 0x8000000000008003,
    0x8000000000008002, 0x8000000000000080, 0x000000000000800A, 0x800000008000000A,
    0x8000000080008081, 0x8000000000008080, 0x0000000080000001, 0x8000000080008008]"

definition keccak_f :: "kstate \<Rightarrow> kstate" where
  "keccak_f s = keccak_rounds keccak_rc s"

definition zero_plane :: plane where "zero_plane = Plane 0 0 0 0 0"
definition zero_state :: kstate where
  "zero_state = KState zero_plane zero_plane zero_plane zero_plane zero_plane"

definition lane_of_bytes :: "byte \<Rightarrow> byte \<Rightarrow> byte \<Rightarrow> byte \<Rightarrow> byte \<Rightarrow> byte \<Rightarrow> byte \<Rightarrow> byte \<Rightarrow> lane" where
  "lane_of_bytes b0 b1 b2 b3 b4 b5 b6 b7 =
     or (ucast b0) (or (push_bit 8 (ucast b1)) (or (push_bit 16 (ucast b2)) (or (push_bit 24 (ucast b3))
       (or (push_bit 32 (ucast b4)) (or (push_bit 40 (ucast b5)) (or (push_bit 48 (ucast b6)) (push_bit 56 (ucast b7))))))))"

fun lanes_of_bytes :: "byte list \<Rightarrow> lane list" where
  "lanes_of_bytes (b0 # b1 # b2 # b3 # b4 # b5 # b6 # b7 # bs) =
     lane_of_bytes b0 b1 b2 b3 b4 b5 b6 b7 # lanes_of_bytes bs"
| "lanes_of_bytes _ = []"

definition bytes_of_lane :: "lane \<Rightarrow> byte list" where
  "bytes_of_lane w = [ucast w, ucast (drop_bit 8 w), ucast (drop_bit 16 w), ucast (drop_bit 24 w),
     ucast (drop_bit 32 w), ucast (drop_bit 40 w), ucast (drop_bit 48 w), ucast (drop_bit 56 w)]"

definition lane_at :: "lane list \<Rightarrow> nat \<Rightarrow> lane" where
  "lane_at ls i = (if i < length ls then ls ! i else 0)"

definition block_state :: "lane list \<Rightarrow> kstate" where
  "block_state ls = KState
     (Plane (lane_at ls 0) (lane_at ls 1) (lane_at ls 2) (lane_at ls 3) (lane_at ls 4))
     (Plane (lane_at ls 5) (lane_at ls 6) (lane_at ls 7) (lane_at ls 8) (lane_at ls 9))
     (Plane (lane_at ls 10) (lane_at ls 11) (lane_at ls 12) (lane_at ls 13) (lane_at ls 14))
     (Plane (lane_at ls 15) (lane_at ls 16) 0 0 0)
     (Plane 0 0 0 0 0)"

definition absorb_block :: "kstate \<Rightarrow> byte list \<Rightarrow> kstate" where
  "absorb_block st blk = keccak_f (xor_state st (block_state (lanes_of_bytes blk)))"

function absorb :: "kstate \<Rightarrow> byte list \<Rightarrow> kstate" where
  "absorb st bs = (if drop 136 bs = [] then absorb_block st bs
                   else absorb (absorb_block st (take 136 bs)) (drop 136 bs))"
  by pat_completeness auto
termination by (relation "measure (\<lambda>(st, bs). length bs)") auto

declare absorb.simps [simp del]

definition keccak_pad :: "byte list \<Rightarrow> byte list" where
  "keccak_pad m = (let q = 136 - length m mod 136
                   in if q = 1 then m @ [0x81] else m @ [0x01] @ replicate (q - 2) 0 @ [0x80])"

fun squeeze32 :: "kstate \<Rightarrow> byte list" where
  "squeeze32 (KState (Plane a0 a1 a2 a3 a4) b c d e) =
     bytes_of_lane a0 @ bytes_of_lane a1 @ bytes_of_lane a2 @ bytes_of_lane a3"

definition keccak256_bytes :: "byte list \<Rightarrow> byte list" where
  "keccak256_bytes m = squeeze32 (absorb zero_state (keccak_pad m))"

text \<open>\<^verbatim>\<open>ethers.keccak256\<close>: the digest as a hexadecimal string.\<close>

definition keccak256 :: "byte list \<Rightarrow> string" where
  "keccak256 bs = hexlify (keccak256_bytes bs)"

text \<open>\<^verbatim>\<open>ethers.hashMessage\<close> of a byte array: the digest of the prefix, the decimal
  length of the message and the message.\<close>

definition MessagePrefix :: string where
  "MessagePrefix = CHR 0x19 # ''Ethereum Signed Message:'' @ [CHR 0x0A]"

definition hashMessage :: "byte list \<Rightarrow> string" where
  "hashMessage m =
     keccak256 (toUtf8Bytes MessagePrefix @ toUtf8Bytes (digits (length m)) @ m)"

subsection \<open>\<^verbatim>\<open>parseInt\<close> and the pagination parameters\<close>

definition is_js_space :: "char \<Rightarrow> bool" where
  "is_js_space c = ((of_char c :: nat) \<in> {9, 10, 11, 12, 13, 32, 160})"

definition radix_val :: "char \<Rightarrow> nat" where
  "radix_val c =
     (let n = (of_char c :: nat) in
      if 48 \<le> n \<and> n \<le> 57 then n - 48
      else if 97 \<le> n \<and> n \<le> 122 then n - 87
      else if 65 \<le> n \<and> n \<le> 90 then n - 55
      else 36)"

text \<open>
  \<^verbatim>\<open>parseInt(string)\<close> without a radix: leading white space is dropped, a sign is
  read, \<^verbatim>\<open>0x\<close> selects radix 16, and the longest run of digits is the value;
  \<^const>\<open>None\<close> is \<^verbatim>\<open>NaN\<close>.  The value is the exact integer (JavaScript rounds
  it to a double from \<open>2^53\<close> on).
\<close>

definition parseInt_string :: "string \<Rightarrow> int option" where
  "parseInt_string input =
     (let s = dropWhile is_js_space input;
          neg = (s \<noteq> [] \<and> hd s = CHR ''-'');
          s1 = (if s \<noteq> [] \<and> (hd s = CHR ''+'' \<or> hd s = CHR ''-'') then tl s else s);
          hex = (take 2 s1 = ''0x'' \<or> take 2 s1 = ''0X'');
          R = (if hex then 16 else 10);
          s2 = (if hex then drop 2 s1 else s1);
          Z = takeWhile (\<lambda>c. radix_val c < R) s2
      in if Z = [] then None
         else Some ((if neg then - 1 else 1) * int (foldl (\<lambda>acc c. acc * R + radix_val c) 0 Z)))"

text \<open>A query parameter that is absent is \<^verbatim>\<open>undefined\<close>, and
  \<^verbatim>\<open>parseInt\<close> reads the string \<^verbatim>\<open>"undefined"\<close>.\<close>

definition parseInt :: "string option \<Rightarrow> int option" where
  "parseInt q = parseInt_string (case q of None \<Rightarrow> ''undefined'' | Some s \<Rightarrow> s)"

text \<open>\<^verbatim>\<open>x || d\<close> on a number: \<^verbatim>\<open>NaN\<close> and zero are falsy.\<close>

definition or_default :: "int option \<Rightarrow> int \<Rightarrow> int" where
  "or_default x d = (case x of None \<Rightarrow> d | Some n \<Rightarrow> if n = 0 then d else n)"

text \<open>\<^verbatim>\<open>Math.min(parseInt(req.query.limit) || 10, 100)\<close> and
  \<^verbatim>\<open>parseInt(req.query.offset) || 0\<close>\<close>

definition list_limit :: "string option \<Rightarrow> int" where
  "list_limit q = min (or_default (parseInt q) 10) 100"

definition list_offset :: "string option \<Rightarrow> int" where
  "list_offset q = or_default (parseInt q) 0"

subsection \<open>The record store\<close>

text \<open>
  The table \<^verbatim>\<open>votes\<close> with its primary key \<^verbatim>\<open>id\<close>.  The state of the server is
  the table, the clock of the database, whether the database answers, and a log of what
  the handlers did: the messages signed with the operator key and the statements sent to
  the database.
\<close>

record vote_row =
  row_id :: string
  row_data :: string
  row_signature :: string
  row_signer :: "string option"
  row_created_at :: nat

datatype sql =
    INSERT_vote string string string "string option"
  | SELECT_by_id string
  | SELECT_page int int

datatype event = Signed "byte list" | Executed sql

datatype db_error = ER_DUP_ENTRY | ER_OTHER

record world =
  rows :: "vote_row list"
  now :: nat
  db_up :: bool
  log :: "event list"

definition newest_first :: "vote_row list \<Rightarrow> vote_row list" where
  "newest_first rs = sort_key (\<lambda>r. - int (row_created_at r)) rs"

text \<open>\<^verbatim>\<open>this.db.execute\<close>: the statement is logged; an insert of an id that is in the
  table fails with \<^verbatim>\<open>ER_DUP_ENTRY\<close>; a negative \<^verbatim>\<open>LIMIT\<close> or \<^verbatim>\<open>OFFSET\<close> is
  refused by the database.\<close>

definition db_execute :: "sql \<Rightarrow> world \<Rightarrow> world \<times> (db_error + vote_row list)" where
  "db_execute q w =
     (let w' = w\<lparr>log := log w @ [Executed q]\<rparr> in
      if \<not> db_up w then (w', Inl ER_OTHER)
      else case q of
        INSERT_vote i d sg sr \<Rightarrow>
          if i \<in> set (map row_id (rows w)) then (w', Inl ER_DUP_ENTRY)
          else (w'\<lparr>rows := rows w @ [\<lparr>row_id = i, row_data = d, row_signature = sg,
                                         row_signer = sr, row_created_at = now w\<rparr>]\<rparr>, Inr [])
      | SELECT_by_id i \<Rightarrow> (w', Inr (filter (\<lambda>r. row_id r = i) (rows w)))
      | SELECT_page l off \<Rightarrow>
          if l < 0 \<or> off < 0 then (w', Inl ER_OTHER)
          else (w', Inr (take (nat l) (drop (nat off) (newest_first (rows w))))))"

subsection \<open>Requests, responses and the signing library\<close>

record request =
  req_data :: "json option"
  req_signature :: "json option"
  req_signer :: "json option"

record response =
  res_status :: nat
  res_body :: json

definition error_response :: "nat \<Rightarrow> string \<Rightarrow> string \<Rightarrow> response" where
  "error_response st msg code =
     \<lparr>res_status = st, res_body = JObj [(''error'', JStr msg), (''code'', JStr code)]\<rparr>"

text \<open>
  The elliptic-curve part of \<^verbatim>\<open>ethers\<close>: signing a digest with a private key (the
  serialized signature), recovering the address that signed a digest (or the message of
  the error thrown), the address of a private key, and \<^verbatim>\<open>ethers.isAddress\<close>.
\<close>

record ethers_ec =
  sign_digest :: "byte list \<Rightarrow> string \<Rightarrow> string"
  recoverAddress :: "string \<Rightarrow> json option \<Rightarrow> string + string"
  computeAddress :: "byte list \<Rightarrow> string"
  isAddress :: "json \<Rightarrow> bool"

text \<open>\<^verbatim>\<open>wallet.signMessage\<close> and \<^verbatim>\<open>ethers.verifyMessage\<close> work on the digest
  of \<^const>\<open>hashMessage\<close>.\<close>

definition signMessage :: "ethers_ec \<Rightarrow> byte list \<Rightarrow> byte list \<Rightarrow> string" where
  "signMessage E key m = sign_digest E key (hashMessage m)"

definition verifyMessage :: "ethers_ec \<Rightarrow> byte list \<Rightarrow> json option \<Rightarrow> string + string" where
  "verifyMessage E m sg = recoverAddress E (hashMessage m) sg"

subsection \<open>The first revision: votes without a caller signature\<close>

text \<open>\<^verbatim>\<open>validateVoteData\<close>, lines 149 to 176.  \<^const>\<open>None\<close> is the call of
  \<^verbatim>\<open>next()\<close>.\<close>

definition validateVoteData_v1 :: "request \<Rightarrow> response option" where
  "validateVoteData_v1 r =
     (case req_data r of
        None \<Rightarrow> Some (error_response 400 ''Missing required field: data'' ''MISSING_DATA'')
      | Some d \<Rightarrow>
          if \<not> truthy (Some d)
          then Some (error_response 400 ''Missing required field: data'' ''MISSING_DATA'')
          else if typeof (Some d) \<noteq> ''object''
          then Some (error_response 400 ''Data must be an object'' ''INVALID_DATA_TYPE'')
          else if length (JSON_stringify d) > 1000000
          then Some (error_response 400 ''Data too large'' ''DATA_TOO_LARGE'')
          else None)"

definition internal_error :: "string \<Rightarrow> response" where
  "internal_error msg = error_response 500 msg ''INTERNAL_ERROR''"

definition duplicate_vote :: response where
  "duplicate_vote = error_response 409 ''Vote with this data already exists'' ''DUPLICATE_VOTE''"

text \<open>\<^verbatim>\<open>handleCreateVote\<close>, lines 215 to 256.  Without \<^verbatim>\<open>data\<close> the conversion to
  bytes throws, and so would \<^verbatim>\<open>getBytes\<close> of a malformed id; both end in the
  \<^verbatim>\<open>catch\<close> block.\<close>

definition handleCreateVote_v1 :: "ethers_ec \<Rightarrow> byte list \<Rightarrow> request \<Rightarrow> world \<Rightarrow> world \<times> response" where
  "handleCreateVote_v1 E key r w =
     (case req_data r of
        None \<Rightarrow> (w, internal_error ''Failed to save vote'')
      | Some d \<Rightarrow>
          (let dataString = JSON_stringify d;
               ident = keccak256 (toUtf8Bytes dataString)
           in (case getBytes ident of
                 None \<Rightarrow> (w, internal_error ''Failed to save vote'')
               | Some idb \<Rightarrow>
                   (let signature = signMessage E key idb;
                        w1 = w\<lparr>log := log w @ [Signed idb]\<rparr>;
                        (w2, res) = db_execute (INSERT_vote ident dataString signature None) w1
                    in (case res of
                          Inr x \<Rightarrow>
                            (w2, \<lparr>res_status = 201,
                                  res_body = JObj [(''success'', JBool True),
                                    (''message'', JStr ''Vote saved successfully''),
                                    (''data'', JObj [(''id'', JStr ident), (''signature'', JStr signature),
                                                     (''operator'', JStr (computeAddress E key))])]\<rparr>)
                        | Inl ER_DUP_ENTRY \<Rightarrow> (w2, duplicate_vote)
                        | Inl ER_OTHER \<Rightarrow> (w2, internal_error ''Failed to save vote''))))))"

definition opt_str :: "string option \<Rightarrow> json" where
  "opt_str x = (case x of None \<Rightarrow> JNull | Some s \<Rightarrow> JStr s)"

definition invalid_id :: response where
  "invalid_id = error_response 400 ''Invalid vote ID format'' ''INVALID_ID''"

definition vote_not_found :: response where
  "vote_not_found = error_response 404 ''Vote not found'' ''VOTE_NOT_FOUND''"

text \<open>\<^verbatim>\<open>handleGetVote\<close>, lines 258 to 296.  The timestamp of the row is carried as a
  number.\<close>

definition handleGetVote_v1 :: "string \<Rightarrow> world \<Rightarrow> world \<times> response" where
  "handleGetVote_v1 ident w =
     (if ident = [] \<or> \<not> isHexString ident (Some 32) then (w, invalid_id)
      else
        (let (w1, res) = db_execute (SELECT_by_id ident) w
         in case res of
             Inl e \<Rightarrow> (w1, internal_error ''Failed to retrieve vote'')
           | Inr [] \<Rightarrow> (w1, vote_not_found)
           | Inr (vote # others) \<Rightarrow>
               (case JSON_parse (row_data vote) of
                  None \<Rightarrow> (w1, internal_error ''Failed to retrieve vote'')
                | Some d \<Rightarrow>
                    (w1, \<lparr>res_status = 200,
                          res_body = JObj [(''success'', JBool True),
                            (''data'', JObj [(''id'', JStr (row_id vote)), (''data'', d),
                                             (''signature'', JStr (row_signature vote)),
                                             (''createdAt'', JNum (int (row_created_at vote)))])]\<rparr>))))"

text \<open>\<^verbatim>\<open>handleGetAllVotes\<close>, lines 298 to 323 and, word for word, 860 to 885.\<close>

definition handleGetAllVotes :: "string option \<Rightarrow> string option \<Rightarrow> world \<Rightarrow> world \<times> response" where
  "handleGetAllVotes qlimit qoffset w =
     (let limit = list_limit qlimit;
          offset = list_offset qoffset;
          (w1, res) = db_execute (SELECT_page limit offset) w
      in case res of
           Inl e \<Rightarrow> (w1, internal_error ''Failed to retrieve votes'')
         | Inr results \<Rightarrow>
             (w1, \<lparr>res_status = 200,
                   res_body = JObj [(''success'', JBool True),
                     (''data'', JArr (map (\<lambda>v. JObj [(''id'', JStr (row_id v)),
                                                     (''created_at'', JNum (int (row_created_at v)))]) results)),
                     (''pagination'', JObj [(''limit'', JNum limit), (''offset'', JNum offset),
                                            (''count'', JNum (int (length results)))])]\<rparr>))"

text \<open>The route \<^verbatim>\<open>POST /votes\<close>: the validation, then the handler.\<close>

definition post_votes_v1 :: "ethers_ec \<Rightarrow> byte list \<Rightarrow> request \<Rightarrow> world \<Rightarrow> world \<times> response" where
  "post_votes_v1 E key r w =
     (case validateVoteData_v1 r of Some res \<Rightarrow> (w, res) | None \<Rightarrow> handleCreateVote_v1 E key r w)"

subsection \<open>The last revision: votes with a caller signature\<close>

definition isHexString_value :: "json option \<Rightarrow> bool" where
  "isHexString_value v = (case v of Some (JStr s) \<Rightarrow> isHexString s None | _ \<Rightarrow> False)"

text \<open>\<^verbatim>\<open>validateVoteData\<close>, lines 624 to 663.\<close>

definition validateVoteData :: "ethers_ec \<Rightarrow> request \<Rightarrow> response option" where
  "validateVoteData E r =
     (if \<not> truthy (req_data r)
      then Some (error_response 400 ''Missing required field: data'' ''MISSING_DATA'')
      else if typeof (req_data r) \<noteq> ''object''
      then Some (error_response 400 ''Data must be an object'' ''INVALID_DATA_TYPE'')
      else if truthy (req_signature r) \<and> typeof (req_signature r) \<noteq> ''string''
      then Some (error_response 400 ''Signature must be a string'' ''INVALID_SIGNATURE_TYPE'')
      else if truthy (req_signature r) \<and> \<not> isHexString_value (req_signature r)
      then Some (error_response 400 ''Signature must be a valid hex string'' ''INVALID_SIGNATURE_FORMAT'')
      else if truthy (req_signer r) \<and> \<not> (case req_signer r of Some a \<Rightarrow> isAddress E a | None \<Rightarrow> False)
      then Some (error_response 400 ''Invalid signer address format'' ''INVALID_SIGNER_ADDRESS'')
      else None)"

record validation_result =
  isValid :: bool
  error :: "string option"
  recoveredSigner :: "string option"

definition verification_failed :: "string \<Rightarrow> validation_result" where
  "verification_failed msg =
     \<lparr>isValid = False, error = Some (''Signature verification failed: '' @ msg),
      recoveredSigner = None\<rparr>"

text \<open>\<^verbatim>\<open>validateSignature\<close>, lines 665 to 697.  Every exception ends in the
  \<^verbatim>\<open>catch\<close> block: the conversion of an absent \<^verbatim>\<open>data\<close>, a signature that the
  library rejects, and \<^verbatim>\<open>toLowerCase\<close> on an expected signer that is no string.\<close>

definition validateSignature :: "ethers_ec \<Rightarrow> json option \<Rightarrow> json option \<Rightarrow> json option \<Rightarrow> validation_result" where
  "validateSignature E dat signature expectedSigner =
     (case dat of
        None \<Rightarrow> verification_failed ''invalid string value''
      | Some d \<Rightarrow>
          (let dataString = JSON_stringify d;
               messageHash = keccak256 (toUtf8Bytes dataString)
           in (case getBytes messageHash of
                 None \<Rightarrow> verification_failed ''invalid BytesLike value''
               | Some mb \<Rightarrow>
                   (case verifyMessage E mb signature of
                      Inl msg \<Rightarrow> verification_failed msg
                    | Inr recovered \<Rightarrow>
                        (if truthy expectedSigner then
                           (case expectedSigner of
                              Some (JStr e) \<Rightarrow>
                                (if toLowerCase recovered \<noteq> toLowerCase e
                                 then \<lparr>isValid = False,
                                       error = Some ''Signature does not match expected signer'',
                                       recoveredSigner = Some recovered\<rparr>
                                 else \<lparr>isValid = True, error = None, recoveredSigner = Some recovered\<rparr>)
                            | _ \<Rightarrow> verification_failed ''expectedSigner.toLowerCase is not a function'')
                         else \<lparr>isValid = True, error = None, recoveredSigner = Some recovered\<rparr>)))))"

text \<open>\<^verbatim>\<open>handleCreateVote\<close>, lines 742 to 817.\<close>

definition handleCreateVote :: "ethers_ec \<Rightarrow> byte list \<Rightarrow> request \<Rightarrow> world \<Rightarrow> world \<times> response" where
  "handleCreateVote E key r w =
     (case req_data r of
        None \<Rightarrow> (w, internal_error ''Failed to save vote'')
      | Some d \<Rightarrow>
          (let dataString = JSON_stringify d;
               ident = keccak256 (toUtf8Bytes dataString)
           in (if truthy (req_signature r) then
                 (let validationResult = validateSignature E (req_data r) (req_signature r) (req_signer r)
                  in (if \<not> isValid validationResult
                      then (w, \<lparr>res_status = 400,
                                res_body = JObj [(''error'', opt_str (error validationResult)),
                                                 (''code'', JStr ''INVALID_SIGNATURE'')]\<rparr>)
                      else
                        (let signerAddress = recoveredSigner validationResult
                         in (case getBytes ident of
                               None \<Rightarrow> (w, internal_error ''Failed to save vote'')
                             | Some idb \<Rightarrow>
                                 (let operatorSignature = signMessage E key idb;
                                      w1 = w\<lparr>log := log w @ [Signed idb]\<rparr>;
                                      (w2, res) = db_execute (INSERT_vote ident dataString operatorSignature signerAddress) w1
                                  in (case res of
                                        Inr x \<Rightarrow>
                                          (w2, \<lparr>res_status = 201,
                                                res_body = JObj [(''success'', JBool True),
                                                  (''message'', JStr ''Vote saved successfully''),
                                                  (''data'', JObj [(''id'', JStr ident),
                                                                   (''signature'', JStr operatorSignature),
                                                                   (''signer'', opt_str signerAddress),
                                                                   (''operator'', JStr (computeAddress E key))])]\<rparr>)
                                      | Inl ER_DUP_ENTRY \<Rightarrow> (w2, duplicate_vote)
                                      | Inl ER_OTHER \<Rightarrow> (w2, internal_error ''Failed to save vote'')))))))
               else (w, error_response 400 ''signature is required'' ''INVALID_SIGNATURE''))))"

text \<open>\<^verbatim>\<open>handleGetVote\<close>, lines 819 to 858.\<close>

definition handleGetVote :: "string \<Rightarrow> world \<Rightarrow> world \<times> response" where
  "handleGetVote ident w =
     (if ident = [] \<or> \<not> isHexString ident (Some 32) then (w, invalid_id)
      else
        (let (w1, res) = db_execute (SELECT_by_id ident) w
         in case res of
             Inl e \<Rightarrow> (w1, internal_error ''Failed to retrieve vote'')
           | Inr [] \<Rightarrow> (w1, vote_not_found)
           | Inr (vote # others) \<Rightarrow>
               (case JSON_parse (row_data vote) of
                  None \<Rightarrow> (w1, internal_error ''Failed to retrieve vote'')
                | Some d \<Rightarrow>
                    (w1, \<lparr>res_status = 200,
                          res_body = JObj [(''success'', JBool True),
                            (''data'', JObj [(''id'', JStr (row_id vote)), (''data'', d),
                                             (''signature'', JStr (row_signature vote)),
                                             (''signer'', opt_str (row_signer vote)),
                                             (''createdAt'', JNum (int (row_created_at vote)))])]\<rparr>))))"

text \<open>\<^verbatim>\<open>handleVerifySignature\<close>, lines 887 to 928.\<close>

definition handleVerifySignature :: "ethers_ec \<Rightarrow> request \<Rightarrow> world \<Rightarrow> world \<times> response" where
  "handleVerifySignature E r w =
     (if \<not> truthy (req_signature r)
      then (w, error_response 400 ''Signature is required for verification'' ''MISSING_SIGNATURE'')
      else
        (let validationResult = validateSignature E (req_data r) (req_signature r) (req_signer r)
         in if \<not> isValid validationResult
           then (w, \<lparr>res_status = 400,
                     res_body = JObj [(''success'', JBool False),
                                      (''error'', opt_str (error validationResult)),
                                      (''code'', JStr ''SIGNATURE_VERIFICATION_FAILED'')]\<rparr>)
           else
             (case req_data r of
                None \<Rightarrow> (w, internal_error ''Failed to verify signature'')
              | Some d \<Rightarrow>
                  (w, \<lparr>res_status = 200,
                       res_body = JObj [(''success'', JBool True),
                         (''message'', JStr ''Signature is valid''),
                         (''data'', JObj [(''isValid'', JBool True),
                            (''recoveredSigner'', opt_str (recoveredSigner validationResult)),
                            (''dataHash'', JStr (keccak256 (toUtf8Bytes (JSON_stringify d))))])]\<rparr>))))"

text \<open>The routes \<^verbatim>\<open>POST /votes\<close> and \<^verbatim>\<open>POST /verify-signature\<close>.\<close>

definition post_votes :: "ethers_ec \<Rightarrow> byte list \<Rightarrow> request \<Rightarrow> world \<Rightarrow> world \<times> response" where
  "post_votes E key r w =
     (case validateVoteData E r of Some res \<Rightarrow> (w, res) | None \<Rightarrow> handleCreateVote E key r w)"

definition post_verify_signature :: "ethers_ec \<Rightarrow> request \<Rightarrow> world \<Rightarrow> world \<times> response" where
  "post_verify_signature E r w =
     (case validateVoteData E r of Some res \<Rightarrow> (w, res) | None \<Rightarrow> handleVerifySignature E r w)"

subsection \<open>Notions of the claims\<close>

text \<open>The format of an identifier in the words of the specification,
  \<^verbatim>\<open>^0x[0-9a-f]{64}$\<close>, and the same with hexadecimal digits of either case.\<close>

definition id_format_spec :: "string \<Rightarrow> bool" where
  "id_format_spec s =
     (length s = 66 \<and> take 2 s = ''0x'' \<and> list_all (\<lambda>c. c \<in> set ''0123456789abcdef'') (drop 2 s))"

definition id_format_any_case :: "string \<Rightarrow> bool" where
  "id_format_any_case s =
     (length s = 66 \<and> take 2 s = ''0x'' \<and>
      list_all (\<lambda>c. c \<in> set ''0123456789abcdefABCDEF'') (drop 2 s))"

text \<open>Sample identifiers (64 digits, 64 digits, 63 digits) and the empty store.\<close>

definition upper_id :: string where
  "upper_id = ''0xAAAAAAAAAAAAAAAAAAAAAAAAAAAAAAAAAAAAAAAAAAAAAAAAAAAAAAAAAAAAAAAA''"

definition lower_id :: string where
  "lower_id = ''0xaaaaaaaaaaaaaaaaaaaaaaaaaaaaaaaaaaaaaaaaaaaaaaaaaaaaaaaaaaaaaaaa''"

definition short_id :: string where
  "short_id = ''0xaaaaaaaaaaaaaaaaaaaaaaaaaaaaaaaaaaaaaaaaaaaaaaaaaaaaaaaaaaaaaaa''"

definition empty_world :: world where
  "empty_world = \<lparr>rows = [], now = 0, db_up = True, log = []\<rparr>"

text \<open>The identifier of a payload, as both revisions of \<^verbatim>\<open>handleCreateVote\<close> and
  \<^verbatim>\<open>validateSignature\<close> compute it, and its 32 bytes.\<close>

definition vote_id :: "json \<Rightarrow> string" where
  "vote_id d = keccak256 (toUtf8Bytes (JSON_stringify d))"

definition vote_id_bytes :: "json \<Rightarrow> byte list" where
  "vote_id_bytes d = keccak256_bytes (toUtf8Bytes (JSON_stringify d))"

definition missing_data :: response where
  "missing_data = error_response 400 ''Missing required field: data'' ''MISSING_DATA''"

definition invalid_data_type :: response where
  "invalid_data_type = error_response 400 ''Data must be an object'' ''INVALID_DATA_TYPE''"

definition signer_mismatch :: "string \<Rightarrow> validation_result" where
  "signer_mismatch recovered =
     \<lparr>isValid = False, error = Some ''Signature does not match expected signer'',
      recoveredSigner = Some recovered\<rparr>"

definition signature_valid :: "string \<Rightarrow> validation_result" where
  "signature_valid recovered = \<lparr>isValid = True, error = None, recoveredSigner = Some recovered\<rparr>"

subsection \<open>The contract of the signing library, and a stand-in for it\<close>

text \<open>
  What the model asks of the elliptic-curve functions, for the operator key and every
  digest of 32 bytes: a serialized signature is \<^verbatim>\<open>0x\<close> and 130 hexadecimal digits
  (65 bytes), and from a digest and the signature the operator key made of it the library
  recovers the operator address.  The contract says nothing of messages, prefixes or
  identifiers.
\<close>

definition ec_contract :: "ethers_ec \<Rightarrow> byte list \<Rightarrow> bool" where
  "ec_contract E key \<longleftrightarrow>
     (\<forall>digest. isHexString digest (Some 32) \<longrightarrow>
        recoverAddress E digest (Some (JStr (sign_digest E key digest))) = Inr (computeAddress E key)
        \<and> isHexString (sign_digest E key digest) (Some 65))"

text \<open>
  A stand-in for the elliptic-curve functions, to run the model on concrete requests.  Its
  signature is the key, the digest and the byte \<open>0x1b\<close>; its address is the first 20
  bytes of the key.  It has the interface of the library and recovers the signer of its
  own signatures; it is no cryptography.
\<close>

definition sample_ec :: ethers_ec where
  "sample_ec =
     \<lparr>sign_digest = (\<lambda>key digest. ''0x'' @ drop 2 (hexlify key) @ drop 2 digest @ ''1b''),
      recoverAddress = (\<lambda>digest sg.
         case sg of
           Some (JStr s) \<Rightarrow>
             if length s = 132 \<and> take 2 s = ''0x'' \<and> take 64 (drop 66 s) = drop 2 digest
             then Inr (''0x'' @ take 40 (drop 2 s))
             else Inl ''invalid signature''
         | _ \<Rightarrow> Inl ''invalid signature''),
      computeAddress = (\<lambda>key. ''0x'' @ take 40 (drop 2 (hexlify key))),
      isAddress = (\<lambda>a. case a of JStr s \<Rightarrow> isHexString s (Some 20) | _ \<Rightarrow> False)\<rparr>"

definition sample_key :: "byte list" where
  "sample_key = replicate 32 0xAB"

definition sample_vote :: json where
  "sample_vote = JObj [(''proposal_id'', JStr ''prop_123''), (''choice'', JStr ''yes'')]"

text \<open>The caller of the samples signs with the operator key.\<close>

definition sample_signature :: string where
  "sample_signature = signMessage sample_ec sample_key (vote_id_bytes sample_vote)"

definition sample_request :: request where
  "sample_request =
     \<lparr>req_data = Some sample_vote, req_signature = Some (JStr sample_signature), req_signer = None\<rparr>"



subsection \<open>Stored rows\<close>

text \<open>The row that a successful create of the payload \<open>d\<close> writes at time \<open>t\<close>.\<close>

definition stored_row :: "ethers_ec \<Rightarrow> byte list \<Rightarrow> json \<Rightarrow> string option \<Rightarrow> nat \<Rightarrow> vote_row" where
  "stored_row E key d sr t =
     \<lparr>row_id = vote_id d, row_data = JSON_stringify d,
      row_signature = signMessage E key (vote_id_bytes d), row_signer = sr, row_created_at = t\<rparr>"

definition insert_of :: "ethers_ec \<Rightarrow> byte list \<Rightarrow> json \<Rightarrow> string option \<Rightarrow> sql" where
  "insert_of E key d sr =
     INSERT_vote (vote_id d) (JSON_stringify d) (signMessage E key (vote_id_bytes d)) sr"

text \<open>
  The 28 bytes of the text \<^verbatim>\<open>"\x19Ethereum Signed Message:\n32"\<close>, written out: the
  byte \<open>0x19\<close>, the 24 characters of \<^verbatim>\<open>Ethereum Signed Message:\<close>, a line feed and
  the two digits of the length 32.
\<close>

definition personal_message_prefix_32 :: "byte list" where
  "personal_message_prefix_32 =
     [0x19,
      0x45, 0x74, 0x68, 0x65, 0x72, 0x65, 0x75, 0x6D, 0x20,
      0x53, 0x69, 0x67, 0x6E, 0x65, 0x64, 0x20,
      0x4D, 0x65, 0x73, 0x73, 0x61, 0x67, 0x65, 0x3A,
      0x0A,
      0x33, 0x32]"

text \<open>
  A row carries a valid operator signature: its id is the hexadecimal form of 32 bytes;
  its signature is the one the operator key makes of the Keccak-256 digest of
  \<^const>\<open>personal_message_prefix_32\<close> followed by these 32 bytes; the signature is a
  string of 132 characters, \<^verbatim>\<open>0x\<close> and the hexadecimal form of 65 bytes; and from this
  digest and the signature the library recovers the operator address.
\<close>

definition operator_signed :: "ethers_ec \<Rightarrow> byte list \<Rightarrow> vote_row \<Rightarrow> bool" where
  "operator_signed E key row =
     (case getBytes (row_id row) of
        None \<Rightarrow> False
      | Some idb \<Rightarrow>
          length idb = 32
          \<and> row_signature row = sign_digest E key (keccak256 (personal_message_prefix_32 @ idb))
          \<and> length (row_signature row) = 132
          \<and> take 2 (row_signature row) = ''0x''
          \<and> (case getBytes (row_signature row) of None \<Rightarrow> False | Some sb \<Rightarrow> length sb = 65)
          \<and> recoverAddress E (keccak256 (personal_message_prefix_32 @ idb))
                (Some (JStr (row_signature row))) = Inr (computeAddress E key))"

subsection \<open>Notions for reading a text back\<close>

text \<open>What may follow a number literal for the literal to end there.\<close>

definition number_end :: "string \<Rightarrow> bool" where
  "number_end rest \<longleftrightarrow>
     rest = [] \<or> (\<not> is_digit (hd rest) \<and> hd rest \<noteq> CHR ''.'' \<and> hd rest \<noteq> CHR ''e'' \<and> hd rest \<noteq> CHR ''E'')"

text \<open>What follows a value in the text of \<^const>\<open>JSON_stringify\<close>: the end, a comma or a
  closing bracket.\<close>

definition value_end :: "string \<Rightarrow> bool" where
  "value_end rest \<longleftrightarrow>
     rest = [] \<or> hd rest = CHR '','' \<or> hd rest = CHR '']'' \<or> hd rest = CHR ''}''"

text \<open>The first character of the text of a value tells what the value is.\<close>

definition value_start :: "char \<Rightarrow> bool" where
  "value_start c \<longleftrightarrow>
     c = CHR ''{'' \<or> c = CHR ''['' \<or> c = CHR 0x22 \<or> c = CHR ''t'' \<or> c = CHR ''f''
     \<or> c = CHR ''n'' \<or> c = CHR ''-'' \<or> is_digit c"

text \<open>A bound on the depth of the calls that read the text of a value back.\<close>

fun cost :: "json \<Rightarrow> nat"
  and cost_list :: "json list \<Rightarrow> nat"
  and cost_props :: "(string \<times> json) list \<Rightarrow> nat"
where
  "cost (JArr xs) = Suc (cost_list xs)"
| "cost (JObj kvs) = Suc (cost_props kvs)"
| "cost v = 1"
| "cost_list [] = 0"
| "cost_list (x # xs) = Suc (cost x + cost_list xs)"
| "cost_props [] = 0"
| "cost_props ((k, v) # kvs) = Suc (cost v + cost_props kvs)"

text \<open>Reading a property of an object, and the two fields the round trip is about: the
  \<^verbatim>\<open>data.id\<close> of the answer to a create and the \<^verbatim>\<open>data.data\<close> of the answer to a
  get.\<close>

definition json_field :: "string \<Rightarrow> json \<Rightarrow> json option" where
  "json_field k v = (case v of JObj kvs \<Rightarrow> map_of kvs k | _ \<Rightarrow> None)"

definition created_id :: "response \<Rightarrow> string option" where
  "created_id res =
     (case json_field ''data'' (res_body res) of
        Some dj \<Rightarrow> (case json_field ''id'' dj of Some (JStr i) \<Rightarrow> Some i | _ \<Rightarrow> None)
      | None \<Rightarrow> None)"

definition returned_data :: "response \<Rightarrow> json option" where
  "returned_data res =
     (case json_field ''data'' (res_body res) of
        Some dj \<Rightarrow> json_field ''data'' dj
      | None \<Rightarrow> None)"

subsection \<open>Equality up to the order of keys\<close>

text \<open>
  Equality of values in the words of the specification: equal as trees, whatever the
  order of the keys of their objects.  \<open>canon\<close> puts the properties of every object
  in the order of their keys, code unit by code unit.
\<close>

fun key_le :: "string \<Rightarrow> string \<Rightarrow> bool" where
  "key_le [] b = True"
| "key_le (x # xs) [] = False"
| "key_le (x # xs) (y # ys) =
     ((of_char x :: nat) < of_char y \<or> (x = y \<and> key_le xs ys))"

fun insert_prop :: "string \<times> json \<Rightarrow> (string \<times> json) list \<Rightarrow> (string \<times> json) list" where
  "insert_prop kv [] = [kv]"
| "insert_prop kv (p # ps) = (if key_le (fst kv) (fst p) then kv # p # ps else p # insert_prop kv ps)"

fun canon :: "json \<Rightarrow> json"
  and canon_list :: "json list \<Rightarrow> json list"
  and canon_props :: "(string \<times> json) list \<Rightarrow> (string \<times> json) list"
where
  "canon (JArr xs) = JArr (canon_list xs)"
| "canon (JObj kvs) = JObj (canon_props kvs)"
| "canon v = v"
| "canon_list [] = []"
| "canon_list (x # xs) = canon x # canon_list xs"
| "canon_props [] = []"
| "canon_props ((k, v) # kvs) = insert_prop (k, canon v) (canon_props kvs)"

definition same_value :: "json \<Rightarrow> json \<Rightarrow> bool" where
  "same_value a b \<longleftrightarrow> canon a = canon b"

text \<open>The object \<^verbatim>\<open>{"a":1,"b":2}\<close> and the same object with its keys the other way
  round.\<close>

definition ab_vote :: json where
  "ab_vote = JObj [(''a'', JNum 1), (''b'', JNum 2)]"

definition ba_vote :: json where
  "ba_vote = JObj [(''b'', JNum 2), (''a'', JNum 1)]"

subsection \<open>Large payloads\<close>

definition data_too_large :: response where
  "data_too_large = error_response 400 ''Data too large'' ''DATA_TOO_LARGE''"

text \<open>Two large payloads: \<^verbatim>\<open>{"k":"aaa..."}\<close> with a million times \<^verbatim>\<open>a\<close>, and
  \<^verbatim>\<open>{"k":"\<dots>"}\<close> with 600000 times the code unit \<open>0xE9\<close>, which takes two bytes in
  UTF-8.  Each request carries the signature the operator key makes of its identifier.\<close>

definition big_vote :: json where
  "big_vote = JObj [(''k'', JStr (replicate 1000000 (CHR ''a'')))]"

definition accent_vote :: json where
  "accent_vote = JObj [(''k'', JStr (replicate 600000 (CHR 0xE9)))]"

definition signed_request :: "json \<Rightarrow> request" where
  "signed_request d =
     \<lparr>req_data = Some d,
      req_signature = Some (JStr (signMessage sample_ec sample_key (vote_id_bytes d))),
      req_signer = None\<rparr>"

section \<open>Properties\<close>

subsection \<open>Pagination\<close>

lemma handleGetAllVotes_log:
  "log (fst (handleGetAllVotes ql qo w)) =
     log w @ [Executed (SELECT_page (list_limit ql) (list_offset qo))]"
  by (simp add: handleGetAllVotes_def db_execute_def Let_def split: sum.splits)

lemma parseInt_500: "parseInt (Some ''500'') = Some 500"
  by (simp add: parseInt_def parseInt_string_def is_js_space_def radix_val_def)

lemma parseInt_minus_5: "parseInt (Some ''-5'') = Some (- 5)"
  by (simp add: parseInt_def parseInt_string_def is_js_space_def radix_val_def)

lemma parseInt_7: "parseInt (Some ''7'') = Some 7"
  by (simp add: parseInt_def parseInt_string_def is_js_space_def radix_val_def)

lemma parseInt_undefined: "parseInt None = None"
  by (simp add: parseInt_def parseInt_string_def is_js_space_def radix_val_def)

text \<open>
  C5, as the specification states it: a list request with \<^verbatim>\<open>limit=500\<close> and
  \<^verbatim>\<open>offset=-5\<close> runs with limit 100 and offset 0, and the limit never falls below 1.
  The handler sends the offset \<open>-5\<close> to the database, and a negative limit passes as
  it is.
\<close>

theorem list_clamp_counterexample:
  "log (fst (handleGetAllVotes (Some ''500'') (Some ''-5'')
          \<lparr>rows = [], now = 0, db_up = True, log = []\<rparr>))
     = [Executed (SELECT_page 100 (- 5))]
   \<and> SELECT_page 100 (- 5) \<noteq> SELECT_page 100 0
   \<and> list_offset (Some ''-5'') < 0
   \<and> list_limit (Some ''-5'') < 1"
  by (simp add: handleGetAllVotes_log list_limit_def list_offset_def or_default_def
        parseInt_500 parseInt_minus_5)

text \<open>
  C5, amended: every list request sends \<^verbatim>\<open>LIMIT\<close> and \<^verbatim>\<open>OFFSET\<close> as computed by
  \<^const>\<open>list_limit\<close> and \<^const>\<open>list_offset\<close>.  The limit is at most 100; it is 10
  when the parameter is absent, is no number or is zero; a positive parameter \<open>n\<close> gives
  \<open>min n 100\<close>, which lies between 1 and 100.  The offset is 0 when the parameter is
  absent or no number, and the parsed integer otherwise; there is no lower clamp, so a
  negative limit or offset is passed on as it is.
\<close>

theorem list_parameters:
  "log (fst (handleGetAllVotes ql qo w)) =
     log w @ [Executed (SELECT_page (list_limit ql) (list_offset qo))]
   \<and> list_limit ql \<le> 100
   \<and> list_limit None = 10 \<and> list_offset None = 0
   \<and> (parseInt ql = None \<or> parseInt ql = Some 0 \<longrightarrow> list_limit ql = 10)
   \<and> (parseInt ql = Some n \<and> 0 < n \<longrightarrow> list_limit ql = min n 100 \<and> 1 \<le> list_limit ql)
   \<and> (parseInt ql = Some n \<and> n < 0 \<longrightarrow> list_limit ql = n)
   \<and> (parseInt qo = None \<longrightarrow> list_offset qo = 0)
   \<and> (parseInt qo = Some m \<longrightarrow> list_offset qo = m)"
proof -
  have "list_limit ql \<le> 100"
    by (simp add: list_limit_def)
  moreover have "list_limit None = 10" "list_offset None = 0"
    by (simp_all add: list_limit_def list_offset_def or_default_def parseInt_undefined)
  moreover have "parseInt ql = None \<or> parseInt ql = Some 0 \<longrightarrow> list_limit ql = 10"
    by (auto simp: list_limit_def or_default_def)
  moreover have "parseInt ql = Some n \<and> 0 < n \<longrightarrow> list_limit ql = min n 100 \<and> 1 \<le> list_limit ql"
    by (auto simp: list_limit_def or_default_def)
  moreover have "parseInt ql = Some n \<and> n < 0 \<longrightarrow> list_limit ql = n"
    by (auto simp: list_limit_def or_default_def)
  moreover have "parseInt qo = None \<longrightarrow> list_offset qo = 0"
    by (simp add: list_offset_def or_default_def)
  moreover have "parseInt qo = Some m \<longrightarrow> list_offset qo = m"
    by (simp add: list_offset_def or_default_def)
  ultimately show ?thesis
    using handleGetAllVotes_log [of ql qo w] by blast
qed

theorem list_parameters_witness:
  "parseInt (Some ''500'') = Some 500 \<and> (0::int) < 500
   \<and> parseInt (Some ''7'') = Some 7
   \<and> list_limit (Some ''500'') = 100 \<and> list_offset (Some ''7'') = 7
   \<and> log (fst (handleGetAllVotes (Some ''500'') (Some ''7'')
            \<lparr>rows = [], now = 0, db_up = True, log = []\<rparr>))
        = [Executed (SELECT_page 100 7)]"
  using list_parameters [of "Some ''500''" "Some ''7''"
          "\<lparr>rows = [], now = 0, db_up = True, log = []\<rparr>" 500 7]
        parseInt_500 parseInt_7
  by simp

subsection \<open>Hexadecimal strings\<close>

lemma hexval_hexdig: "n < 16 \<Longrightarrow> hexval (hexdig n) = Some n"
proof -
  assume "n < 16"
  then have "n \<in> {0,1,2,3,4,5,6,7,8,9,10,11,12,13,14,15}" by (simp; arith)
  then show ?thesis
    by (auto simp: hexval_def hexdig_def)
qed

lemma byte_split: "(word_of_nat (unat b div 16 * 16 + unat b mod 16) :: byte) = b"
  by simp

lemma hex_pairs_hex_bytes: "hex_pairs (concat (map hex_byte bs)) = Some bs"
proof (induction bs)
  case Nil
  show ?case by simp
next
  case (Cons b bs)
  have "unat b div 16 < 16"
    using unsigned_less [of b, where ?'a = nat] by (simp add: less_mult_imp_div_less)
  then show ?case
    using Cons by (simp add: hex_byte_def hexval_hexdig)
qed

lemma getBytes_hexlify: "getBytes (hexlify bs) = Some bs"
  by (simp add: getBytes_def hexlify_def hex_pairs_hex_bytes)

lemma getBytes_keccak256: "getBytes (keccak256 bs) = Some (keccak256_bytes bs)"
  by (simp add: keccak256_def getBytes_hexlify)

lemma char_mem_iff:
  "c \<in> set cs \<longleftrightarrow> (of_char c :: nat) \<in> of_char ` set cs"
  using inj_of_char [where ?'a = nat] by (auto simp: inj_def)

lemma hexval_iff: "hexval c \<noteq> None \<longleftrightarrow> c \<in> set ''0123456789abcdefABCDEF''"
proof -
  have "hexval c \<noteq> None \<longleftrightarrow>
          (of_char c :: nat) \<in> {48, 49, 50, 51, 52, 53, 54, 55, 56, 57,
                                 97, 98, 99, 100, 101, 102, 65, 66, 67, 68, 69, 70}"
    unfolding hexval_def Let_def by (simp; arith)
  also have "\<dots> \<longleftrightarrow> c \<in> set ''0123456789abcdefABCDEF''"
    unfolding char_mem_iff [of c] by simp
  finally show ?thesis .
qed

lemma isHexString_32: "isHexString s (Some 32) \<longleftrightarrow> id_format_any_case s"
  unfolding isHexString_def id_format_any_case_def hexval_iff
  by (simp add: conj_commute conj_left_commute)

lemma lower_hex_subset: "set ''0123456789abcdef'' \<subseteq> set ''0123456789abcdefABCDEF''"
  by (simp add: subset_iff)

lemma id_format_spec_any_case: "id_format_spec s \<Longrightarrow> id_format_any_case s"
  unfolding id_format_spec_def id_format_any_case_def list_all_iff
  using lower_hex_subset by blast

lemma id_format_nonempty: "id_format_any_case s \<Longrightarrow> s \<noteq> []"
  by (auto simp: id_format_any_case_def)

subsection \<open>The identifier of a get request\<close>

lemma handleGetVote_rejects:
  "\<not> id_format_any_case i \<Longrightarrow> handleGetVote i w = (w, invalid_id)"
  "\<not> id_format_any_case i \<Longrightarrow> handleGetVote_v1 i w = (w, invalid_id)"
  by (simp_all add: handleGetVote_def handleGetVote_v1_def isHexString_32)

lemma select_by_id_log:
  "fst (db_execute (SELECT_by_id i) w) = w\<lparr>log := log w @ [Executed (SELECT_by_id i)]\<rparr>"
  by (simp add: db_execute_def Let_def)

lemma handleGetVote_accepts:
  assumes "id_format_any_case i"
  shows "fst (handleGetVote i w) = w\<lparr>log := log w @ [Executed (SELECT_by_id i)]\<rparr>"
    and "res_status (snd (handleGetVote i w)) \<in> {200, 404, 500}"
proof -
  have ok: "\<not> (i = [] \<or> \<not> isHexString i (Some 32))"
    using assms id_format_nonempty by (simp add: isHexString_32)
  show "fst (handleGetVote i w) = w\<lparr>log := log w @ [Executed (SELECT_by_id i)]\<rparr>"
    using ok select_by_id_log [of i w]
    by (auto simp: handleGetVote_def Let_def split: prod.splits sum.splits list.splits option.splits)
  show "res_status (snd (handleGetVote i w)) \<in> {200, 404, 500}"
    using ok
    by (auto simp: handleGetVote_def Let_def internal_error_def error_response_def vote_not_found_def
             split: prod.splits sum.splits list.splits option.splits)
qed

lemma handleGetVote_v1_accepts:
  assumes "id_format_any_case i"
  shows "fst (handleGetVote_v1 i w) = w\<lparr>log := log w @ [Executed (SELECT_by_id i)]\<rparr>"
    and "res_status (snd (handleGetVote_v1 i w)) \<in> {200, 404, 500}"
proof -
  have ok: "\<not> (i = [] \<or> \<not> isHexString i (Some 32))"
    using assms id_format_nonempty by (simp add: isHexString_32)
  show "fst (handleGetVote_v1 i w) = w\<lparr>log := log w @ [Executed (SELECT_by_id i)]\<rparr>"
    using ok select_by_id_log [of i w]
    by (auto simp: handleGetVote_v1_def Let_def split: prod.splits sum.splits list.splits option.splits)
  show "res_status (snd (handleGetVote_v1 i w)) \<in> {200, 404, 500}"
    using ok
    by (auto simp: handleGetVote_v1_def Let_def internal_error_def error_response_def vote_not_found_def
             split: prod.splits sum.splits list.splits option.splits)
qed

text \<open>
  C6, as the specification states it: an identifier is accepted exactly when it matches
  \<^verbatim>\<open>^0x[0-9a-f]{64}$\<close>, and every other one is refused without a store access.
  The identifier of 64 capital \<^verbatim>\<open>A\<close> does not match; both revisions accept it, send
  the \<^verbatim>\<open>SELECT\<close> and answer that the vote was not found.
\<close>

theorem get_id_lowercase_counterexample:
  "\<not> id_format_spec upper_id
   \<and> handleGetVote upper_id empty_world
       = (empty_world\<lparr>log := [Executed (SELECT_by_id upper_id)]\<rparr>, vote_not_found)
   \<and> handleGetVote_v1 upper_id empty_world
       = (empty_world\<lparr>log := [Executed (SELECT_by_id upper_id)]\<rparr>, vote_not_found)
   \<and> vote_not_found \<noteq> invalid_id"
  by (simp add: id_format_spec_def upper_id_def handleGetVote_def handleGetVote_v1_def
        isHexString_def hexval_def empty_world_def db_execute_def Let_def
        vote_not_found_def invalid_id_def error_response_def)

text \<open>
  C6, amended: an identifier is accepted exactly when it matches
  \<^verbatim>\<open>^0x[0-9A-Fa-f]{64}$\<close>, digits of either case.  An accepted identifier causes
  one \<^verbatim>\<open>SELECT\<close> and the answer 200, 404 or 500; any other identifier, for example
  one of 65 characters, is answered with \<^verbatim>\<open>INVALID_ID\<close> and the state, log included,
  stays as it was.  Every identifier of the specification's format is accepted.
\<close>

theorem get_id_check:
  "(id_format_any_case i \<longrightarrow>
      fst (handleGetVote i w) = w\<lparr>log := log w @ [Executed (SELECT_by_id i)]\<rparr>
      \<and> res_status (snd (handleGetVote i w)) \<in> {200, 404, 500}
      \<and> fst (handleGetVote_v1 i w) = w\<lparr>log := log w @ [Executed (SELECT_by_id i)]\<rparr>
      \<and> res_status (snd (handleGetVote_v1 i w)) \<in> {200, 404, 500})
   \<and> (\<not> id_format_any_case i \<longrightarrow>
      handleGetVote i w = (w, invalid_id) \<and> handleGetVote_v1 i w = (w, invalid_id))
   \<and> (id_format_spec i \<longrightarrow> id_format_any_case i)"
  using handleGetVote_accepts [of i w] handleGetVote_v1_accepts [of i w]
        handleGetVote_rejects [of i w] id_format_spec_any_case [of i]
  by blast

theorem get_id_check_witness:
  "id_format_spec lower_id \<and> id_format_any_case lower_id
   \<and> fst (handleGetVote lower_id empty_world) = empty_world\<lparr>log := [Executed (SELECT_by_id lower_id)]\<rparr>
   \<and> \<not> id_format_any_case short_id \<and> length short_id = 65
   \<and> handleGetVote short_id empty_world = (empty_world, invalid_id)
   \<and> handleGetVote_v1 short_id empty_world = (empty_world, invalid_id)"
proof -
  have a: "id_format_spec lower_id"
    by (simp add: id_format_spec_def lower_id_def)
  have b: "\<not> id_format_any_case short_id" "length short_id = 65"
    by (simp_all add: id_format_any_case_def short_id_def)
  show ?thesis
    using a b get_id_check [of lower_id empty_world] get_id_check [of short_id empty_world]
    by (simp add: empty_world_def)
qed

subsection \<open>Validation of the payload\<close>

lemma validateVoteData_v1_falsy:
  "\<not> truthy (req_data r) \<Longrightarrow> validateVoteData_v1 r = Some missing_data"
  by (cases "req_data r") (simp_all add: validateVoteData_v1_def missing_data_def)

lemma validateVoteData_v1_non_object:
  "truthy (req_data r) \<Longrightarrow> typeof (req_data r) \<noteq> ''object'' \<Longrightarrow>
     validateVoteData_v1 r = Some invalid_data_type"
  by (cases "req_data r") (simp_all add: validateVoteData_v1_def invalid_data_type_def)

lemma validateVoteData_falsy:
  "\<not> truthy (req_data r) \<Longrightarrow> validateVoteData E r = Some missing_data"
  by (simp add: validateVoteData_def missing_data_def)

lemma validateVoteData_non_object:
  "truthy (req_data r) \<Longrightarrow> typeof (req_data r) \<noteq> ''object'' \<Longrightarrow>
     validateVoteData E r = Some invalid_data_type"
  by (simp add: validateVoteData_def invalid_data_type_def)

lemma falsy_values:
  "d \<in> {None, Some JNull, Some (JBool False), Some (JNum 0), Some (JStr [])} \<Longrightarrow> \<not> truthy d"
  by auto

lemma truthy_non_objects:
  "(\<exists>s. d = Some (JStr s) \<and> s \<noteq> []) \<or> (\<exists>n. d = Some (JNum n) \<and> n \<noteq> 0) \<or> d = Some (JBool True)
     \<Longrightarrow> truthy d \<and> typeof d \<noteq> ''object''"
  by auto

text \<open>
  C10: a create request whose \<^verbatim>\<open>data\<close> is absent, \<^verbatim>\<open>null\<close>, \<^verbatim>\<open>false\<close>,
  \<^verbatim>\<open>0\<close> or the empty string is answered with \<^verbatim>\<open>MISSING_DATA\<close>; one whose
  \<^verbatim>\<open>data\<close> is a non-empty string, a number other than zero or \<^verbatim>\<open>true\<close> is answered
  with \<^verbatim>\<open>INVALID_DATA_TYPE\<close>.  In both revisions the state comes back as it was: no
  message was signed and no statement was sent to the database.
\<close>

theorem create_rejects_non_objects:
  "(req_data r \<in> {None, Some JNull, Some (JBool False), Some (JNum 0), Some (JStr [])} \<longrightarrow>
      post_votes_v1 E key r w = (w, missing_data) \<and> post_votes E key r w = (w, missing_data))
   \<and> ((\<exists>s. req_data r = Some (JStr s) \<and> s \<noteq> []) \<or> (\<exists>n. req_data r = Some (JNum n) \<and> n \<noteq> 0)
        \<or> req_data r = Some (JBool True) \<longrightarrow>
      post_votes_v1 E key r w = (w, invalid_data_type) \<and> post_votes E key r w = (w, invalid_data_type))"
proof (intro conjI impI)
  assume a: "req_data r \<in> {None, Some JNull, Some (JBool False), Some (JNum 0), Some (JStr [])}"
  from falsy_values [OF a]
  show "post_votes_v1 E key r w = (w, missing_data)" "post_votes E key r w = (w, missing_data)"
    by (simp_all add: post_votes_v1_def post_votes_def validateVoteData_v1_falsy validateVoteData_falsy)
next
  assume a: "(\<exists>s. req_data r = Some (JStr s) \<and> s \<noteq> []) \<or> (\<exists>n. req_data r = Some (JNum n) \<and> n \<noteq> 0)
        \<or> req_data r = Some (JBool True)"
  from truthy_non_objects [OF a]
  show "post_votes_v1 E key r w = (w, invalid_data_type)" "post_votes E key r w = (w, invalid_data_type)"
    by (simp_all add: post_votes_v1_def post_votes_def validateVoteData_v1_non_object
          validateVoteData_non_object)
qed

theorem create_rejects_non_objects_witness:
  "post_votes sample_ec sample_key \<lparr>req_data = Some (JNum 0), req_signature = None, req_signer = None\<rparr> empty_world
     = (empty_world, missing_data)
   \<and> post_votes_v1 sample_ec sample_key \<lparr>req_data = None, req_signature = None, req_signer = None\<rparr> empty_world
     = (empty_world, missing_data)
   \<and> post_votes sample_ec sample_key \<lparr>req_data = Some (JStr ''yes''), req_signature = None, req_signer = None\<rparr> empty_world
     = (empty_world, invalid_data_type)
   \<and> post_votes_v1 sample_ec sample_key \<lparr>req_data = Some (JBool True), req_signature = None, req_signer = None\<rparr> empty_world
     = (empty_world, invalid_data_type)"
  using create_rejects_non_objects [of "\<lparr>req_data = Some (JNum 0), req_signature = None, req_signer = None\<rparr>"
          sample_ec sample_key empty_world]
        create_rejects_non_objects [of "\<lparr>req_data = None, req_signature = None, req_signer = None\<rparr>"
          sample_ec sample_key empty_world]
        create_rejects_non_objects [of "\<lparr>req_data = Some (JStr ''yes''), req_signature = None, req_signer = None\<rparr>"
          sample_ec sample_key empty_world]
        create_rejects_non_objects [of "\<lparr>req_data = Some (JBool True), req_signature = None, req_signer = None\<rparr>"
          sample_ec sample_key empty_world]
  by simp

subsection \<open>Verification of a caller signature\<close>

text \<open>
  C9: the route \<^verbatim>\<open>POST /verify-signature\<close>, with its validation and its handler,
  gives the state back as it received it, table and log alike, whatever the request and
  whatever the answer.
\<close>

theorem verify_signature_no_persistence:
  "fst (post_verify_signature E r w) = w \<and> fst (handleVerifySignature E r w) = w"
  by (simp add: post_verify_signature_def handleVerifySignature_def Let_def
        split: option.splits)

lemma validateSignature_recovered:
  assumes "verifyMessage E (vote_id_bytes d) sg = Inr recovered"
  shows "validateSignature E (Some d) sg expectedSigner =
           (if truthy expectedSigner then
              (case expectedSigner of
                 Some (JStr e) \<Rightarrow>
                   if toLowerCase recovered \<noteq> toLowerCase e then signer_mismatch recovered
                   else signature_valid recovered
               | _ \<Rightarrow> verification_failed ''expectedSigner.toLowerCase is not a function'')
            else signature_valid recovered)"
  using assms
  by (simp add: validateSignature_def getBytes_keccak256 vote_id_bytes_def Let_def
        signer_mismatch_def signature_valid_def split: option.splits json.splits)

text \<open>
  C7: let the library recover the address \<open>recovered\<close> from the signature over the
  identifier of the payload, and let the expected signer be absent or a string.  Then the
  verification fails with the signer mismatch exactly when the expected signer is supplied
  (a non-empty string) and differs from the recovered address after both are put in lower
  case; in every other case it succeeds and returns the recovered address.
\<close>

theorem signer_mismatch_iff:
  assumes "verifyMessage E (vote_id_bytes d) sg = Inr recovered"
      and "expectedSigner = None \<or> (\<exists>e. expectedSigner = Some (JStr e))"
  shows "(validateSignature E (Some d) sg expectedSigner = signer_mismatch recovered
            \<longleftrightarrow> (\<exists>e. expectedSigner = Some (JStr e) \<and> e \<noteq> [] \<and> toLowerCase recovered \<noteq> toLowerCase e))
       \<and> (\<not> (\<exists>e. expectedSigner = Some (JStr e) \<and> e \<noteq> [] \<and> toLowerCase recovered \<noteq> toLowerCase e)
            \<longrightarrow> validateSignature E (Some d) sg expectedSigner = signature_valid recovered)"
  using assms(2) validateSignature_recovered [OF assms(1), of expectedSigner]
  by (auto simp: signer_mismatch_def signature_valid_def)

subsection \<open>Length of digests\<close>

lemma length_bytes_of_lane: "length (bytes_of_lane l) = 8"
  by (simp add: bytes_of_lane_def)

lemma length_squeeze32: "length (squeeze32 s) = 32"
proof (cases s)
  case (KState a b c d e)
  then show ?thesis by (cases a) (simp add: length_bytes_of_lane)
qed

lemma length_keccak256_bytes: "length (keccak256_bytes bs) = 32"
  by (simp add: keccak256_bytes_def length_squeeze32)

lemma length_hex_bytes: "length (concat (map hex_byte bs)) = 2 * length bs"
  by (induction bs) (simp_all add: hex_byte_def)

lemma length_hexlify: "length (hexlify bs) = 2 + 2 * length bs"
  by (simp add: hexlify_def length_hex_bytes)

lemma length_keccak256: "length (keccak256 bs) = 66"
  by (simp add: keccak256_def length_hexlify length_keccak256_bytes)

lemma length_hashMessage: "length (hashMessage m) = 66"
  by (simp add: hashMessage_def length_keccak256)

lemma digits_32: "digits 32 = ''32''"
  by (simp add: digits.simps [of 32] digits.simps [of 3] digit_char_def)

lemma hashMessage_32:
  "length m = 32 \<Longrightarrow> hashMessage m = keccak256 (toUtf8Bytes (MessagePrefix @ ''32'') @ m)"
  by (simp add: hashMessage_def digits_32 toUtf8Bytes_def)

subsection \<open>The insert\<close>

lemma db_execute_insert:
  "db_execute (INSERT_vote i d sg sr) w =
     (if \<not> db_up w then (w\<lparr>log := log w @ [Executed (INSERT_vote i d sg sr)]\<rparr>, Inl ER_OTHER)
      else if i \<in> set (map row_id (rows w))
      then (w\<lparr>log := log w @ [Executed (INSERT_vote i d sg sr)]\<rparr>, Inl ER_DUP_ENTRY)
      else (w\<lparr>log := log w @ [Executed (INSERT_vote i d sg sr)],
              rows := rows w @ [\<lparr>row_id = i, row_data = d, row_signature = sg, row_signer = sr,
                                 row_created_at = now w\<rparr>]\<rparr>, Inr []))"
  by (simp add: db_execute_def Let_def)

lemma handleCreateVote_v1_eq:
  "req_data r = Some d \<Longrightarrow>
   handleCreateVote_v1 E key r w =
     (let q = INSERT_vote (vote_id d) (JSON_stringify d) (signMessage E key (vote_id_bytes d)) None;
          w1 = w\<lparr>log := log w @ [Signed (vote_id_bytes d), Executed q]\<rparr>
      in if \<not> db_up w then (w1, internal_error ''Failed to save vote'')
         else if vote_id d \<in> set (map row_id (rows w)) then (w1, duplicate_vote)
         else (w1\<lparr>rows := rows w @ [\<lparr>row_id = vote_id d, row_data = JSON_stringify d,
                        row_signature = signMessage E key (vote_id_bytes d), row_signer = None,
                        row_created_at = now w\<rparr>]\<rparr>,
               \<lparr>res_status = 201,
                res_body = JObj [(''success'', JBool True),
                  (''message'', JStr ''Vote saved successfully''),
                  (''data'', JObj [(''id'', JStr (vote_id d)),
                                   (''signature'', JStr (signMessage E key (vote_id_bytes d))),
                                   (''operator'', JStr (computeAddress E key))])]\<rparr>))"
  by (simp add: handleCreateVote_v1_def getBytes_keccak256 db_execute_insert Let_def
        vote_id_def vote_id_bytes_def)

subsection \<open>The stand-in library\<close>

lemma hexval_hexdig_mod: "hexval (hexdig n) = Some (n mod 16)"
  using hexval_hexdig [of "n mod 16"] by (simp add: hexdig_def)

lemma hex_bytes_are_hex: "list_all (\<lambda>c. hexval c \<noteq> None) (concat (map hex_byte bs))"
  by (induction bs) (simp_all add: hex_byte_def hexval_hexdig_mod)

lemma drop_2_hexlify: "drop 2 (hexlify bs) = concat (map hex_byte bs)"
  by (simp add: hexlify_def)

lemma take_2_hexlify: "take 2 (hexlify bs) = ''0x''"
  by (simp add: hexlify_def)

lemma length_drop_2_hashMessage: "length (drop 2 (hashMessage m)) = 64"
  by (simp add: length_hashMessage)

lemma hashMessage_hex: "list_all (\<lambda>c. hexval c \<noteq> None) (drop 2 (hashMessage m))"
  unfolding hashMessage_def keccak256_def drop_2_hexlify by (rule hex_bytes_are_hex)

lemma sample_key_hex_length: "length (drop 2 (hexlify sample_key)) = 64"
  by (simp add: sample_key_def length_hexlify)

lemma sample_signMessage:
  "signMessage sample_ec sample_key m =
     ''0x'' @ drop 2 (hexlify sample_key) @ drop 2 (hashMessage m) @ ''1b''"
  by (simp add: signMessage_def sample_ec_def)

lemma sample_computeAddress:
  "computeAddress sample_ec sample_key = ''0x'' @ take 40 (drop 2 (hexlify sample_key))"
  by (simp add: sample_ec_def)

lemma sample_verify:
  "verifyMessage sample_ec m (Some (JStr (signMessage sample_ec sample_key m)))
     = Inr (computeAddress sample_ec sample_key)"
  unfolding sample_signMessage sample_computeAddress
  using sample_key_hex_length length_drop_2_hashMessage [of m]
  by (simp add: verifyMessage_def sample_ec_def)

lemma sample_signature_hex: "isHexString (signMessage sample_ec sample_key m) (Some 65)"
  unfolding sample_signMessage
  using sample_key_hex_length length_drop_2_hashMessage [of m] hashMessage_hex [of m]
        hex_bytes_are_hex [of sample_key]
  by (simp add: isHexString_def drop_2_hexlify hexval_def)

lemma keccak256_hex: "isHexString (keccak256 bs) (Some 32)"
  using hex_bytes_are_hex [of "keccak256_bytes bs"]
  by (simp add: isHexString_def keccak256_def take_2_hexlify drop_2_hexlify length_hexlify
        length_keccak256_bytes)

lemma sample_ec_contract: "ec_contract sample_ec sample_key"
proof -
  have "recoverAddress sample_ec digest (Some (JStr (sign_digest sample_ec sample_key digest)))
          = Inr (computeAddress sample_ec sample_key)
        \<and> isHexString (sign_digest sample_ec sample_key digest) (Some 65)"
    if h: "isHexString digest (Some 32)" for digest
  proof -
    have l: "length (drop 2 digest) = 64" and x: "list_all (\<lambda>c. hexval c \<noteq> None) (drop 2 digest)"
      using h by (simp_all add: isHexString_def)
    show ?thesis
      using sample_key_hex_length l x hex_bytes_are_hex [of sample_key]
      by (simp add: sample_ec_def isHexString_def drop_2_hexlify hexval_def)
  qed
  then show ?thesis
    by (simp add: ec_contract_def)
qed

lemma sample_address: "computeAddress sample_ec sample_key = ''0xabababababababababababababababababababab''"
  by code_simp







subsection \<open>Creating a vote\<close>

lemma handleCreateVote_v1_stored:
  "req_data r = Some d \<Longrightarrow>
   handleCreateVote_v1 E key r w =
     (let w1 = w\<lparr>log := log w @ [Signed (vote_id_bytes d), Executed (insert_of E key d None)]\<rparr>
      in if \<not> db_up w then (w1, internal_error ''Failed to save vote'')
         else if vote_id d \<in> set (map row_id (rows w)) then (w1, duplicate_vote)
         else (w1\<lparr>rows := rows w @ [stored_row E key d None (now w)]\<rparr>,
               \<lparr>res_status = 201,
                res_body = JObj [(''success'', JBool True),
                  (''message'', JStr ''Vote saved successfully''),
                  (''data'', JObj [(''id'', JStr (vote_id d)),
                                   (''signature'', JStr (signMessage E key (vote_id_bytes d))),
                                   (''operator'', JStr (computeAddress E key))])]\<rparr>))"
  by (simp add: handleCreateVote_v1_eq stored_row_def insert_of_def Let_def)

lemma handleCreateVote_stored:
  "req_data r = Some d \<Longrightarrow>
   handleCreateVote E key r w =
     (if \<not> truthy (req_signature r)
      then (w, error_response 400 ''signature is required'' ''INVALID_SIGNATURE'')
      else
        (let vr = validateSignature E (Some d) (req_signature r) (req_signer r) in
         if \<not> isValid vr
         then (w, \<lparr>res_status = 400,
                   res_body = JObj [(''error'', opt_str (error vr)), (''code'', JStr ''INVALID_SIGNATURE'')]\<rparr>)
         else
           (let w1 = w\<lparr>log := log w @ [Signed (vote_id_bytes d),
                                          Executed (insert_of E key d (recoveredSigner vr))]\<rparr>
            in if \<not> db_up w then (w1, internal_error ''Failed to save vote'')
               else if vote_id d \<in> set (map row_id (rows w)) then (w1, duplicate_vote)
               else (w1\<lparr>rows := rows w @ [stored_row E key d (recoveredSigner vr) (now w)]\<rparr>,
                     \<lparr>res_status = 201,
                      res_body = JObj [(''success'', JBool True),
                        (''message'', JStr ''Vote saved successfully''),
                        (''data'', JObj [(''id'', JStr (vote_id d)),
                                         (''signature'', JStr (signMessage E key (vote_id_bytes d))),
                                         (''signer'', opt_str (recoveredSigner vr)),
                                         (''operator'', JStr (computeAddress E key))])]\<rparr>))))"
  by (simp add: handleCreateVote_def getBytes_keccak256 db_execute_insert Let_def
        vote_id_def vote_id_bytes_def stored_row_def insert_of_def)

lemma status_simps:
  "res_status (error_response st msg code) = st"
  "res_status (internal_error msg) = 500"
  "res_status duplicate_vote = 409"
  "res_status missing_data = 400"
  "res_status invalid_data_type = 400"
  by (simp_all add: error_response_def internal_error_def duplicate_vote_def missing_data_def
        invalid_data_type_def)

lemma validateVoteData_v1_status:
  "validateVoteData_v1 r = Some res \<Longrightarrow> res_status res = 400"
  by (auto simp: validateVoteData_v1_def status_simps split: option.splits if_splits)

lemma validateVoteData_status:
  "validateVoteData E r = Some res \<Longrightarrow> res_status res = 400"
  by (auto simp: validateVoteData_def status_simps split: if_splits)

text \<open>What a create that answers 201 has done, in the first and in the last revision.\<close>

lemma post_votes_v1_created:
  assumes "post_votes_v1 E key r w = (w', res)" and "res_status res = 201"
  shows "\<exists>d. req_data r = Some d \<and> validateVoteData_v1 r = None \<and> db_up w
              \<and> vote_id d \<notin> set (map row_id (rows w))
              \<and> w' = w\<lparr>log := log w @ [Signed (vote_id_bytes d), Executed (insert_of E key d None)],
                        rows := rows w @ [stored_row E key d None (now w)]\<rparr>"
proof -
  have v: "validateVoteData_v1 r = None"
    using assms validateVoteData_v1_status [of r]
    by (cases "validateVoteData_v1 r") (auto simp: post_votes_v1_def)
  then obtain d where d: "req_data r = Some d"
    by (cases "req_data r") (auto simp: validateVoteData_v1_def)
  have h: "handleCreateVote_v1 E key r w = (w', res)"
    using assms(1) v by (simp add: post_votes_v1_def)
  show ?thesis
    using h assms(2) v d
    by (auto simp: handleCreateVote_v1_stored [OF d] Let_def status_simps split: if_splits)
qed

lemma post_votes_created:
  assumes "post_votes E key r w = (w', res)" and "res_status res = 201"
  shows "\<exists>d vr. req_data r = Some d \<and> validateVoteData E r = None \<and> db_up w
              \<and> truthy (req_signature r)
              \<and> vr = validateSignature E (Some d) (req_signature r) (req_signer r) \<and> isValid vr
              \<and> vote_id d \<notin> set (map row_id (rows w))
              \<and> w' = w\<lparr>log := log w @ [Signed (vote_id_bytes d),
                                          Executed (insert_of E key d (recoveredSigner vr))],
                        rows := rows w @ [stored_row E key d (recoveredSigner vr) (now w)]\<rparr>"
proof -
  have v: "validateVoteData E r = None"
    using assms validateVoteData_status [of E r]
    by (cases "validateVoteData E r") (auto simp: post_votes_def)
  then obtain d where d: "req_data r = Some d"
    by (cases "req_data r") (auto simp: validateVoteData_def split: if_splits)
  have h: "handleCreateVote E key r w = (w', res)"
    using assms(1) v by (simp add: post_votes_def)
  show ?thesis
    using h assms(2) v d
    by (auto simp: handleCreateVote_stored [OF d] Let_def status_simps split: if_splits)
qed



text \<open>The identifier in the answer to a create is the identifier of the payload.\<close>

lemma post_votes_created_id:
  assumes "post_votes E key r w = (w', res)" and "res_status res = 201" and "req_data r = Some d"
  shows "created_id res = Some (vote_id d)"
proof -
  have v: "validateVoteData E r = None"
    using assms validateVoteData_status [of E r]
    by (cases "validateVoteData E r") (auto simp: post_votes_def)
  have h: "handleCreateVote E key r w = (w', res)"
    using assms(1) v by (simp add: post_votes_def)
  show ?thesis
    using h assms(2)
    by (auto simp: handleCreateVote_stored [OF assms(3)] Let_def status_simps created_id_def
          json_field_def split: if_splits)
qed

lemma post_votes_v1_created_id:
  assumes "post_votes_v1 E key r w = (w', res)" and "res_status res = 201" and "req_data r = Some d"
  shows "created_id res = Some (vote_id d)"
proof -
  have v: "validateVoteData_v1 r = None"
    using assms validateVoteData_v1_status [of r]
    by (cases "validateVoteData_v1 r") (auto simp: post_votes_v1_def)
  have h: "handleCreateVote_v1 E key r w = (w', res)"
    using assms(1) v by (simp add: post_votes_v1_def)
  show ?thesis
    using h assms(2)
    by (auto simp: handleCreateVote_v1_stored [OF assms(3)] Let_def status_simps created_id_def
          json_field_def split: if_splits)
qed


subsection \<open>The sample request\<close>

lemma sample_stringify:
  "JSON_stringify sample_vote =
     [CHR ''{'', CHR 0x22] @ ''proposal_id'' @ [CHR 0x22, CHR '':'', CHR 0x22] @ ''prop_123''
     @ [CHR 0x22, CHR '','', CHR 0x22] @ ''choice'' @ [CHR 0x22, CHR '':'', CHR 0x22] @ ''yes''
     @ [CHR 0x22, CHR ''}'']"
  by (simp add: sample_vote_def QuoteJSONString_def quote_char_def)

lemma sample_validate_v1: "validateVoteData_v1 sample_request = None"
  by (simp add: validateVoteData_v1_def sample_request_def sample_stringify)
     (simp add: sample_vote_def)

lemma isHexString_any_length: "isHexString s (Some n) \<Longrightarrow> isHexString s None"
  by (simp add: isHexString_def)

lemma sample_signature_truthy: "truthy (Some (JStr sample_signature))"
  using sample_signature_hex [of "vote_id_bytes sample_vote"]
  by (auto simp: sample_signature_def isHexString_def)

lemma sample_validate: "validateVoteData sample_ec sample_request = None"
  using sample_signature_truthy
        isHexString_any_length [OF sample_signature_hex [of "vote_id_bytes sample_vote"]]
  by (simp add: validateVoteData_def sample_request_def isHexString_value_def sample_signature_def)
     (simp add: sample_vote_def)

lemma sample_validateSignature:
  "validateSignature sample_ec (Some sample_vote) (Some (JStr sample_signature)) None
     = signature_valid (computeAddress sample_ec sample_key)"
  using validateSignature_recovered [of sample_ec sample_vote "Some (JStr sample_signature)"
          "computeAddress sample_ec sample_key" None]
        sample_verify [of "vote_id_bytes sample_vote"]
  by (simp add: sample_signature_def)

lemma sample_created:
  "post_votes sample_ec sample_key sample_request empty_world =
     (empty_world\<lparr>log := [Signed (vote_id_bytes sample_vote),
                          Executed (insert_of sample_ec sample_key sample_vote
                                      (Some (computeAddress sample_ec sample_key)))],
                  rows := [stored_row sample_ec sample_key sample_vote
                             (Some (computeAddress sample_ec sample_key)) 0]\<rparr>,
      \<lparr>res_status = 201,
       res_body = JObj [(''success'', JBool True),
         (''message'', JStr ''Vote saved successfully''),
         (''data'', JObj [(''id'', JStr (vote_id sample_vote)),
                          (''signature'', JStr sample_signature),
                          (''signer'', JStr (computeAddress sample_ec sample_key)),
                          (''operator'', JStr (computeAddress sample_ec sample_key))])]\<rparr>)"
proof -
  have d: "req_data sample_request = Some sample_vote"
    by (simp add: sample_request_def)
  have s: "req_signature sample_request = Some (JStr sample_signature)"
          "req_signer sample_request = None"
    by (simp_all add: sample_request_def)
  show ?thesis
    using sample_signature_truthy
    by (simp add: post_votes_def sample_validate handleCreateVote_stored [OF d] s
          sample_validateSignature signature_valid_def empty_world_def Let_def opt_str_def
          sample_signature_def [symmetric] stored_row_def insert_of_def)
qed

lemma sample_created_v1:
  "post_votes_v1 sample_ec sample_key sample_request empty_world =
     (empty_world\<lparr>log := [Signed (vote_id_bytes sample_vote),
                          Executed (insert_of sample_ec sample_key sample_vote None)],
                  rows := [stored_row sample_ec sample_key sample_vote None 0]\<rparr>,
      \<lparr>res_status = 201,
       res_body = JObj [(''success'', JBool True),
         (''message'', JStr ''Vote saved successfully''),
         (''data'', JObj [(''id'', JStr (vote_id sample_vote)),
                          (''signature'', JStr sample_signature),
                          (''operator'', JStr (computeAddress sample_ec sample_key))])]\<rparr>)"
proof -
  have d: "req_data sample_request = Some sample_vote"
    by (simp add: sample_request_def)
  show ?thesis
    by (simp add: post_votes_v1_def sample_validate_v1 handleCreateVote_v1_stored [OF d]
          empty_world_def Let_def sample_signature_def [symmetric] stored_row_def insert_of_def)
qed




lemma sample_lower: "toLowerCase ''0xABABABABABABABABABABABABABABABABABABABAB'' = ''0xabababababababababababababababababababab''"
  by code_simp

lemma sample_lower_id: "toLowerCase ''0xabababababababababababababababababababab'' = ''0xabababababababababababababababababababab''"
  by code_simp

lemma sample_lower_zero: "toLowerCase ''0x0000000000000000000000000000000000000000'' = ''0x0000000000000000000000000000000000000000''"
  by code_simp

theorem signer_mismatch_iff_witness:
  "verifyMessage sample_ec (vote_id_bytes sample_vote) (Some (JStr sample_signature))
     = Inr ''0xabababababababababababababababababababab''
   \<and> validateSignature sample_ec (Some sample_vote) (Some (JStr sample_signature))
        (Some (JStr ''0xABABABABABABABABABABABABABABABABABABABAB''))
     = signature_valid ''0xabababababababababababababababababababab''
   \<and> validateSignature sample_ec (Some sample_vote) (Some (JStr sample_signature))
        (Some (JStr ''0x0000000000000000000000000000000000000000''))
     = signer_mismatch ''0xabababababababababababababababababababab''
   \<and> validateSignature sample_ec (Some sample_vote) (Some (JStr sample_signature)) None
     = signature_valid ''0xabababababababababababababababababababab''"
proof -
  have h: "verifyMessage sample_ec (vote_id_bytes sample_vote) (Some (JStr sample_signature))
             = Inr ''0xabababababababababababababababababababab''"
    using sample_verify [of "vote_id_bytes sample_vote"]
    by (simp add: sample_signature_def sample_address)
  show ?thesis
    using h
      signer_mismatch_iff [OF h, of "Some (JStr ''0xABABABABABABABABABABABABABABABABABABABAB'')"]
      signer_mismatch_iff [OF h, of "Some (JStr ''0x0000000000000000000000000000000000000000'')"]
      signer_mismatch_iff [OF h, of None]
    by (simp add: sample_lower sample_lower_id sample_lower_zero)
qed

subsection \<open>The operator signature of a stored row\<close>

lemma isHexString_length: "isHexString s (Some n) \<Longrightarrow> length s = 2 + 2 * n"
  by (simp add: isHexString_def)

lemma hex_pairs_length:
  "list_all (\<lambda>c. hexval c \<noteq> None) s \<Longrightarrow> even (length s) \<Longrightarrow>
     \<exists>bs. hex_pairs s = Some bs \<and> length bs = length s div 2"
  by (induction s rule: hex_pairs.induct) auto

lemma isHexString_getBytes:
  assumes "isHexString s (Some n)"
  shows "\<exists>bs. getBytes s = Some bs \<and> length bs = n"
proof -
  have "list_all (\<lambda>c. hexval c \<noteq> None) (drop 2 s)" "even (length (drop 2 s))"
       "length (drop 2 s) div 2 = n" "take 2 s = ''0x''"
    using assms by (simp_all add: isHexString_def)
  then show ?thesis
    using hex_pairs_length [of "drop 2 s"] by (auto simp: getBytes_def)
qed

text \<open>The message that is hashed for a message of 32 bytes starts with the 28 bytes of
  \<^verbatim>\<open>"\x19Ethereum Signed Message:\n32"\<close>.\<close>

lemma hashMessage_personal_prefix:
  "length m = 32 \<Longrightarrow> hashMessage m = keccak256 (personal_message_prefix_32 @ m)"
  by (simp add: hashMessage_def MessagePrefix_def digits_32 toUtf8Bytes_def utf8_char_def
        personal_message_prefix_32_def)

lemma stored_row_signed:
  assumes "ec_contract E key"
  shows "operator_signed E key (stored_row E key d sr t)"
proof -
  have g: "getBytes (vote_id d) = Some (vote_id_bytes d)"
    by (simp add: vote_id_def vote_id_bytes_def getBytes_keccak256)
  have l: "length (vote_id_bytes d) = 32"
    by (simp add: vote_id_bytes_def length_keccak256_bytes)
  have s: "signMessage E key (vote_id_bytes d) =
             sign_digest E key (keccak256 (personal_message_prefix_32 @ vote_id_bytes d))"
    by (simp add: signMessage_def hashMessage_personal_prefix [OF l])
  have r: "recoverAddress E (keccak256 (personal_message_prefix_32 @ vote_id_bytes d))
             (Some (JStr (signMessage E key (vote_id_bytes d)))) = Inr (computeAddress E key)"
      and c: "isHexString (signMessage E key (vote_id_bytes d)) (Some 65)"
    using assms keccak256_hex [of "personal_message_prefix_32 @ vote_id_bytes d"]
    by (simp_all add: ec_contract_def s)
  have n: "length (signMessage E key (vote_id_bytes d)) = 132"
    using isHexString_length [OF c] by simp
  have x: "take 2 (signMessage E key (vote_id_bytes d)) = ''0x''"
    using c by (simp add: isHexString_def)
  obtain sb where b: "getBytes (signMessage E key (vote_id_bytes d)) = Some sb" "length sb = 65"
    using isHexString_getBytes [OF c] by blast
  show ?thesis
    using g l s [symmetric] r n x b by (simp add: operator_signed_def stored_row_def)
qed

lemma post_votes_v1_rows:
  "rows (fst (post_votes_v1 E key r w)) = rows w
   \<or> (\<exists>d sr. rows (fst (post_votes_v1 E key r w)) = rows w @ [stored_row E key d sr (now w)])"
proof (cases "validateVoteData_v1 r")
  case (Some res)
  then show ?thesis by (simp add: post_votes_v1_def)
next
  case None
  then obtain d where d: "req_data r = Some d"
    by (cases "req_data r") (auto simp: validateVoteData_v1_def)
  show ?thesis
    using None by (auto simp: post_votes_v1_def handleCreateVote_v1_stored [OF d] Let_def)
qed

lemma post_votes_rows:
  "rows (fst (post_votes E key r w)) = rows w
   \<or> (\<exists>d sr. rows (fst (post_votes E key r w)) = rows w @ [stored_row E key d sr (now w)])"
proof (cases "validateVoteData E r")
  case (Some res)
  then show ?thesis by (simp add: post_votes_def)
next
  case None
  then obtain d where d: "req_data r = Some d"
    by (cases "req_data r") (auto simp: validateVoteData_def split: if_splits)
  show ?thesis
    using None by (auto simp: post_votes_def handleCreateVote_stored [OF d] Let_def)
qed

lemma read_only_routes:
  "rows (fst (handleGetVote i w)) = rows w"
  "rows (fst (handleGetVote_v1 i w)) = rows w"
  "rows (fst (handleGetAllVotes ql qo w)) = rows w"
  "rows (fst (post_verify_signature E r w)) = rows w"
proof -
  show "rows (fst (handleGetVote i w)) = rows w"
    by (auto simp: handleGetVote_def db_execute_def Let_def
          split: prod.splits sum.splits list.splits option.splits)
  show "rows (fst (handleGetVote_v1 i w)) = rows w"
    by (auto simp: handleGetVote_v1_def db_execute_def Let_def
          split: prod.splits sum.splits list.splits option.splits)
  show "rows (fst (handleGetAllVotes ql qo w)) = rows w"
    by (auto simp: handleGetAllVotes_def db_execute_def Let_def split: prod.splits sum.splits)
  show "rows (fst (post_verify_signature E r w)) = rows w"
    by (simp add: post_verify_signature_def handleVerifySignature_def Let_def split: option.splits)
qed

text \<open>
  C2, for a signing library that satisfies \<^const>\<open>ec_contract\<close>.  A create that answers
  201 has appended one row; its id is the identifier of the payload, the hexadecimal form
  of 32 bytes, and the row carries a valid operator signature in the sense of
  \<^const>\<open>operator_signed\<close>: the signature that the operator key makes of the Keccak-256
  digest of the 28 bytes of \<^verbatim>\<open>"\x19Ethereum Signed Message:\n32"\<close> followed by the 32
  bytes of the id; it is a string of 132 characters, \<^verbatim>\<open>0x\<close> and the hexadecimal form
  of 65 bytes; and from the digest and the signature the operator address is recovered.
  The property is an invariant of the table: if every row has it, every row has it after
  any request to any route.  Both revisions.

  The elliptic-curve functions are those of the \<^verbatim>\<open>ethers\<close> library and no code of the
  operator: that its signatures take 65 bytes and that recovery returns the address of
  the signing key is the hypothesis \<^const>\<open>ec_contract\<close>, a statement about digests and
  keys alone.  What is signed, the prefix, the length and the bytes of the id, and the row
  the signature is stored in, is proved of the code.
\<close>

theorem operator_signature_valid:
  assumes "ec_contract E key"
  shows "(post_votes E key r w = (w', res) \<and> res_status res = 201 \<longrightarrow>
            (\<exists>d row. req_data r = Some d \<and> rows w' = rows w @ [row] \<and> row_id row = vote_id d
                \<and> operator_signed E key row))
       \<and> (post_votes_v1 E key r w = (w', res) \<and> res_status res = 201 \<longrightarrow>
            (\<exists>d row. req_data r = Some d \<and> rows w' = rows w @ [row] \<and> row_id row = vote_id d
                \<and> operator_signed E key row))
       \<and> (list_all (operator_signed E key) (rows w) \<longrightarrow>
            list_all (operator_signed E key) (rows (fst (post_votes E key r w)))
            \<and> list_all (operator_signed E key) (rows (fst (post_votes_v1 E key r w)))
            \<and> list_all (operator_signed E key) (rows (fst (handleGetVote i w)))
            \<and> list_all (operator_signed E key) (rows (fst (handleGetVote_v1 i w)))
            \<and> list_all (operator_signed E key) (rows (fst (handleGetAllVotes ql qo w)))
            \<and> list_all (operator_signed E key) (rows (fst (post_verify_signature E r w))))"
proof (intro conjI impI)
  assume "post_votes E key r w = (w', res) \<and> res_status res = 201"
  then obtain d and vr :: validation_result where "req_data r = Some d"
      "w' = w\<lparr>log := log w @ [Signed (vote_id_bytes d), Executed (insert_of E key d (recoveredSigner vr))],
               rows := rows w @ [stored_row E key d (recoveredSigner vr) (now w)]\<rparr>"
    using post_votes_created [of E key r w w' res] by blast
  then show "\<exists>d row. req_data r = Some d \<and> rows w' = rows w @ [row] \<and> row_id row = vote_id d
                \<and> operator_signed E key row"
    using stored_row_signed [OF assms, of d "recoveredSigner vr" "now w"]
    by (intro exI [of _ d] exI [of _ "stored_row E key d (recoveredSigner vr) (now w)"])
       (simp add: stored_row_def)
next
  assume "post_votes_v1 E key r w = (w', res) \<and> res_status res = 201"
  then obtain d where "req_data r = Some d"
      "w' = w\<lparr>log := log w @ [Signed (vote_id_bytes d), Executed (insert_of E key d None)],
               rows := rows w @ [stored_row E key d None (now w)]\<rparr>"
    using post_votes_v1_created [of E key r w w' res] by blast
  then show "\<exists>d row. req_data r = Some d \<and> rows w' = rows w @ [row] \<and> row_id row = vote_id d
                \<and> operator_signed E key row"
    using stored_row_signed [OF assms, of d None "now w"]
    by (intro exI [of _ d] exI [of _ "stored_row E key d None (now w)"])
       (simp add: stored_row_def)
next
  assume inv: "list_all (operator_signed E key) (rows w)"
  show "list_all (operator_signed E key) (rows (fst (post_votes E key r w)))"
    using post_votes_rows [of E key r w] inv stored_row_signed [OF assms] by auto
  show "list_all (operator_signed E key) (rows (fst (post_votes_v1 E key r w)))"
    using post_votes_v1_rows [of E key r w] inv stored_row_signed [OF assms] by auto
  show "list_all (operator_signed E key) (rows (fst (handleGetVote i w)))"
       "list_all (operator_signed E key) (rows (fst (handleGetVote_v1 i w)))"
       "list_all (operator_signed E key) (rows (fst (handleGetAllVotes ql qo w)))"
       "list_all (operator_signed E key) (rows (fst (post_verify_signature E r w)))"
    using inv by (simp_all add: read_only_routes)
qed

theorem operator_signature_valid_witness:
  "ec_contract sample_ec sample_key
   \<and> res_status (snd (post_votes sample_ec sample_key sample_request empty_world)) = 201
   \<and> res_status (snd (post_votes_v1 sample_ec sample_key sample_request empty_world)) = 201
   \<and> list_all (operator_signed sample_ec sample_key) (rows empty_world)
   \<and> length (rows (fst (post_votes sample_ec sample_key sample_request empty_world))) = 1
   \<and> list_all (operator_signed sample_ec sample_key)
        (rows (fst (post_votes sample_ec sample_key sample_request empty_world)))
   \<and> length (rows (fst (post_votes_v1 sample_ec sample_key sample_request empty_world))) = 1
   \<and> list_all (operator_signed sample_ec sample_key)
        (rows (fst (post_votes_v1 sample_ec sample_key sample_request empty_world)))"
proof -
  have a: "res_status (snd (post_votes sample_ec sample_key sample_request empty_world)) = 201"
          "length (rows (fst (post_votes sample_ec sample_key sample_request empty_world))) = 1"
    by (simp_all add: sample_created)
  have b: "res_status (snd (post_votes_v1 sample_ec sample_key sample_request empty_world)) = 201"
          "length (rows (fst (post_votes_v1 sample_ec sample_key sample_request empty_world))) = 1"
    by (simp_all add: sample_created_v1)
  have e: "list_all (operator_signed sample_ec sample_key) (rows empty_world)"
    by (simp add: empty_world_def)
  show ?thesis
    using a b e sample_ec_contract
      operator_signature_valid [OF sample_ec_contract, of sample_request empty_world
        "fst (post_votes sample_ec sample_key sample_request empty_world)"
        "snd (post_votes sample_ec sample_key sample_request empty_world)"]
    by simp
qed

subsection \<open>Numbers: printing and reading\<close>

lemma digit_char_code: "d < 10 \<Longrightarrow> (of_char (digit_char d) :: nat) = 48 + d"
proof -
  assume "d < 10"
  then have "d \<in> {0, 1, 2, 3, 4, 5, 6, 7, 8, 9}" by (simp; arith)
  then show ?thesis by (auto simp: digit_char_def)
qed

lemma is_digit_digit_char: "is_digit (digit_char d)"
  using digit_char_code [of "d mod 10"] by (simp add: is_digit_def digit_char_def)

lemma digit_val_digit_char: "d < 10 \<Longrightarrow> digit_val (digit_char d) = d"
  by (simp add: digit_val_def digit_char_code)

lemma parse_digits_stop:
  "rest = [] \<or> \<not> is_digit (hd rest) \<Longrightarrow> parse_digits acc rest = (acc, rest)"
  by (cases rest) auto

lemma parse_digits_digits:
  "parse_digits acc (digits n @ rest) =
     parse_digits (acc * 10 ^ length (digits n) + n) rest"
proof (induction n arbitrary: acc rest rule: digits.induct)
  case (1 n)
  show ?case
  proof (cases "n < 10")
    case True
    then show ?thesis
      by (simp add: digits.simps [of n] is_digit_digit_char digit_val_digit_char)
  next
    case False
    have "parse_digits acc (digits n @ rest) =
            parse_digits acc (digits (n div 10) @ digit_char (n mod 10) # rest)"
      using False by (simp add: digits.simps [of n])
    also have "\<dots> = parse_digits (acc * 10 ^ length (digits (n div 10)) + n div 10)
                        (digit_char (n mod 10) # rest)"
      using "1.IH" [OF False] by simp
    also have "\<dots> = parse_digits ((acc * 10 ^ length (digits (n div 10)) + n div 10) * 10 + n mod 10) rest"
      by (simp add: is_digit_digit_char digit_val_digit_char)
    also have "(acc * 10 ^ length (digits (n div 10)) + n div 10) * 10 + n mod 10
                 = acc * 10 ^ length (digits n) + n"
      using False by (simp add: digits.simps [of n] algebra_simps)
    finally show ?thesis .
  qed
qed

lemma digits_nonempty: "digits n \<noteq> []"
  by (simp add: digits.simps [of n])

lemma digits_all_digits: "list_all is_digit (digits n)"
proof (induction n rule: digits.induct)
  case (1 n)
  then show ?case
    by (cases "n < 10") (simp_all add: digits.simps [of n] is_digit_digit_char)
qed

lemma hd_digits_nonzero: "0 < n \<Longrightarrow> hd (digits n) \<noteq> CHR ''0''"
proof (induction n rule: digits.induct)
  case (1 n)
  show ?case
  proof (cases "n < 10")
    case True
    have "(of_char (digit_char n) :: nat) \<noteq> of_char (CHR ''0'')"
      using True "1.prems" by (simp add: digit_char_code)
    then show ?thesis
      using True by (auto simp: digits.simps [of n])
  next
    case False
    then have "0 < n div 10" by simp
    then show ?thesis
      using False "1.IH" digits_nonempty [of "n div 10"] by (simp add: digits.simps [of n])
  qed
qed

lemma digits_0: "digits 0 = ''0''"
  by (simp add: digits.simps [of 0] digit_char_def)

lemma parse_nat_digits:
  assumes "number_end rest" and "int n \<le> MAX_SAFE_INTEGER"
  shows "parse_number (digits n @ rest) = Some (int n, rest)"
proof -
  obtain c cs where cs: "digits n = c # cs"
    using digits_nonempty [of n] by (cases "digits n") auto
  have dc: "is_digit c"
    using digits_all_digits [of n] cs by simp
  then have nm: "c \<noteq> CHR ''-''"
    by (auto simp: is_digit_def)
  have stop: "rest = [] \<or> \<not> is_digit (hd rest)"
    using assms by (auto simp: number_end_def)
  have ne: "\<not> (rest \<noteq> [] \<and> (hd rest = CHR ''.'' \<or> hd rest = CHR ''e'' \<or> hd rest = CHR ''E''))"
    using assms by (auto simp: number_end_def)
  show ?thesis
  proof (cases "n = 0")
    case True
    then show ?thesis
      using ne by (simp add: digits_0 parse_number_def is_digit_def MAX_SAFE_INTEGER_def)
  next
    case False
    then have "c \<noteq> CHR ''0''"
      using hd_digits_nonzero [of n] cs by simp
    moreover have "parse_digits 0 (digits n @ rest) = (n, rest)"
      using parse_digits_digits [of 0 n rest] parse_digits_stop [OF stop] by simp
    ultimately show ?thesis
      using cs dc nm ne assms(2) by (simp add: parse_number_def Let_def)
  qed
qed

lemma parse_number_toString:
  assumes "number_end rest" and "\<bar>n\<bar> \<le> MAX_SAFE_INTEGER"
  shows "parse_number (Number_toString n @ rest) = Some (n, rest)"
proof (cases "n < 0")
  case False
  then show ?thesis
    using parse_nat_digits [OF assms(1), of "nat n"] assms(2) by (simp add: Number_toString_def)
next
  case True
  define m where "m = nat (- n)"
  have m: "0 < m" "n = - int m" "\<not> MAX_SAFE_INTEGER < int m"
    using True assms(2) by (simp_all add: m_def)
  obtain c cs where cs: "digits m = c # cs"
    using digits_nonempty [of m] by (cases "digits m") auto
  have dc: "is_digit c"
    using digits_all_digits [of m] cs by simp
  have nz: "c \<noteq> CHR ''0''"
    using hd_digits_nonzero [OF m(1)] cs by simp
  have stop: "rest = [] \<or> \<not> is_digit (hd rest)"
    using assms(1) by (auto simp: number_end_def)
  have ne: "\<not> (rest \<noteq> [] \<and> (hd rest = CHR ''.'' \<or> hd rest = CHR ''e'' \<or> hd rest = CHR ''E''))"
    using assms(1) by (auto simp: number_end_def)
  have pd: "parse_digits 0 (c # cs @ rest) = (m, rest)"
    using parse_digits_digits [of 0 m rest] parse_digits_stop [OF stop] cs by simp
  have "Number_toString n = CHR ''-'' # c # cs"
    using True cs by (simp add: Number_toString_def m_def)
  then show ?thesis
    using dc nz ne pd m by (simp add: parse_number_def Let_def)
qed

lemma value_end_number_end: "value_end rest \<Longrightarrow> number_end rest"
  by (auto simp: value_end_def number_end_def is_digit_def)

subsection \<open>Strings: quoting and reading\<close>

lemma hex4_control:
  assumes "(of_char c :: nat) < 32"
  shows "hex4 (CHR ''0'') (CHR ''0'') (hexdig ((of_char c :: nat) div 16)) (hexdig ((of_char c :: nat) mod 16))
           = Some (of_char c)"
proof -
  have a: "(of_char c :: nat) div 16 < 16" using assms by simp
  have b: "(of_char c :: nat) mod 16 < 16" by simp
  have z: "hexval (CHR ''0'') = Some 0" by (simp add: hexval_def)
  show ?thesis
    by (simp add: hex4_def z hexval_hexdig [OF a] hexval_hexdig [OF b])
qed

lemma parse_string_chars_quote_char:
  "parse_string_chars (quote_char c @ s) = cons_result c (parse_string_chars s)"
proof -
  consider "c = CHR 0x08" | "c = CHR 0x09" | "c = CHR 0x0A" | "c = CHR 0x0C" | "c = CHR 0x0D"
    | "c = CHR 0x22" | "c = CHR 0x5C"
    | "c \<notin> {CHR 0x08, CHR 0x09, CHR 0x0A, CHR 0x0C, CHR 0x0D, CHR 0x22, CHR 0x5C}"
        "(of_char c :: nat) < 32"
    | "c \<notin> {CHR 0x08, CHR 0x09, CHR 0x0A, CHR 0x0C, CHR 0x0D, CHR 0x22, CHR 0x5C}"
        "\<not> (of_char c :: nat) < 32"
    by blast
  then show ?thesis
  proof cases
    case 8
    have q: "quote_char c = [CHR 0x5C, CHR ''u'', CHR ''0'', CHR ''0'',
              hexdig ((of_char c :: nat) div 16), hexdig ((of_char c :: nat) mod 16)]"
      using 8 by (simp add: quote_char_def)
    show ?thesis
      using 8(2) by (simp add: q hex4_control)
  next
    case 9
    then show ?thesis by (simp add: quote_char_def)
  qed (simp_all add: quote_char_def unescape_def)
qed

lemma parse_string_chars_quoted:
  "parse_string_chars (concat (map quote_char s) @ CHR 0x22 # rest) = Some (s, rest)"
  by (induction s) (simp_all add: parse_string_chars_quote_char cons_result_def)

lemma parse_string_QuoteJSONString:
  "QuoteJSONString s @ rest = CHR 0x22 # concat (map quote_char s) @ CHR 0x22 # rest"
  by (simp add: QuoteJSONString_def)

subsection \<open>Objects: the order of the keys\<close>

lemma key_before_irrefl: "\<not> key_before k k"
  by (simp add: key_before_def split: option.splits)

lemma CreateDataProperty_last:
  assumes "\<forall>p \<in> set ps. key_before (fst p) (fst kv)"
  shows "CreateDataProperty ps kv = ps @ [kv]"
proof -
  have "fst kv \<notin> set (map fst ps)"
    using assms key_before_irrefl [of "fst kv"] by auto
  moreover have "takeWhile (\<lambda>p. key_before (fst p) (fst kv)) ps = ps"
    using assms by simp
  moreover have "dropWhile (\<lambda>p. key_before (fst p) (fst kv)) ps = []"
    using assms by simp
  ultimately show ?thesis
    by (simp add: CreateDataProperty_def)
qed

lemma foldl_CreateDataProperty:
  "sorted_wrt key_before (map fst (ps @ kvs)) \<Longrightarrow> foldl CreateDataProperty ps kvs = ps @ kvs"
proof (induction kvs arbitrary: ps)
  case Nil
  show ?case by simp
next
  case (Cons kv kvs)
  have "\<forall>p \<in> set ps. key_before (fst p) (fst kv)"
    using Cons.prems by (auto simp: sorted_wrt_append)
  then have "CreateDataProperty ps kv = ps @ [kv]"
    by (rule CreateDataProperty_last)
  then show ?case
    using Cons.IH [of "ps @ [kv]"] Cons.prems by simp
qed

lemma object_of_sorted:
  "sorted_wrt key_before (map fst kvs) \<Longrightarrow> object_of kvs = JObj kvs"
  using foldl_CreateDataProperty [of "[]" kvs] by (simp add: object_of_def)

subsection \<open>Reading back the text of a value\<close>

lemma skip_ws_Cons: "\<not> is_ws c \<Longrightarrow> skip_ws (c # s) = c # s"
  by (simp add: skip_ws_def)

lemma Number_toString_head:
  "\<exists>c cs. Number_toString n = c # cs \<and> (c = CHR ''-'' \<or> is_digit c)"
proof -
  obtain c cs where "digits (nat n) = c # cs"
    using digits_nonempty [of "nat n"] by (cases "digits (nat n)") auto
  moreover have "list_all is_digit (digits (nat n))"
    by (rule digits_all_digits)
  ultimately show ?thesis
    by (auto simp: Number_toString_def)
qed

lemma JSON_stringify_head: "\<exists>c cs. JSON_stringify v = c # cs \<and> value_start c"
proof (cases v)
  case (JNum n)
  then show ?thesis
    using Number_toString_head [of n] by (auto simp: value_start_def)
qed (auto simp: value_start_def QuoteJSONString_def)

lemma value_start_facts:
  "value_start c \<Longrightarrow> \<not> is_ws c \<and> c \<noteq> CHR '']'' \<and> c \<noteq> CHR ''}'' \<and> c \<noteq> CHR '',''"
  by (auto simp: value_start_def is_ws_def is_digit_def)

lemma SerializeJSONArray_head:
  "xs \<noteq> [] \<Longrightarrow> \<exists>c cs. SerializeJSONArray xs = c # cs \<and> value_start c"
proof -
  assume "xs \<noteq> []"
  then obtain x ys where xs: "xs = x # ys" by (cases xs) auto
  show ?thesis
    using JSON_stringify_head [of x] by (cases ys) (auto simp: xs)
qed

lemma SerializeJSONObject_head:
  "kvs \<noteq> [] \<Longrightarrow> \<exists>cs. SerializeJSONObject kvs = CHR 0x22 # cs"
proof -
  assume "kvs \<noteq> []"
  then obtain k v ys where kvs: "kvs = (k, v) # ys" by (cases kvs) auto
  show ?thesis
    by (cases ys) (auto simp: kvs QuoteJSONString_def)
qed

lemma parse_value_null: "parse_value (Suc m) (''null'' @ rest) = Some (JNull, rest)"
  by (simp add: skip_ws_def is_ws_def parse_literal_def)

lemma parse_value_true: "parse_value (Suc m) (''true'' @ rest) = Some (JBool True, rest)"
  by (simp add: skip_ws_def is_ws_def parse_literal_def)

lemma parse_value_false: "parse_value (Suc m) (''false'' @ rest) = Some (JBool False, rest)"
  by (simp add: skip_ws_def is_ws_def parse_literal_def)

lemma parse_value_string:
  "parse_value (Suc m) (QuoteJSONString s @ rest) = Some (JStr s, rest)"
  by (simp add: parse_string_QuoteJSONString skip_ws_def is_ws_def parse_string_chars_quoted)

lemma parse_value_number:
  assumes "value_end rest" and "\<bar>n\<bar> \<le> MAX_SAFE_INTEGER"
  shows "parse_value (Suc m) (Number_toString n @ rest) = Some (JNum n, rest)"
proof -
  obtain c cs where c: "Number_toString n = c # cs" "c = CHR ''-'' \<or> is_digit c"
    using Number_toString_head [of n] by blast
  have ws: "\<not> is_ws c" and ne: "c \<noteq> CHR ''{''" "c \<noteq> CHR ''[''" "c \<noteq> CHR 0x22"
      "c \<noteq> CHR ''t''" "c \<noteq> CHR ''f''" "c \<noteq> CHR ''n''"
    using c(2) by (auto simp: is_ws_def is_digit_def)
  have p: "parse_number (c # cs @ rest) = Some (n, rest)"
    using parse_number_toString [OF value_end_number_end [OF assms(1)] assms(2)] c(1) by simp
  show ?thesis
    using ws ne p by (simp add: c(1) skip_ws_Cons)
qed

lemma parse_value_empty_array: "parse_value (Suc m) (''[]'' @ rest) = Some (JArr [], rest)"
  by (simp add: skip_ws_def is_ws_def)

lemma parse_value_empty_object: "parse_value (Suc m) (''{}'' @ rest) = Some (JObj [], rest)"
  by (simp add: skip_ws_def is_ws_def)

lemma parse_value_array:
  assumes "xs \<noteq> []"
      and "parse_elements m (SerializeJSONArray xs @ CHR '']'' # rest) = Some (xs, rest)"
  shows "parse_value (Suc m) (CHR ''['' # SerializeJSONArray xs @ CHR '']'' # rest) = Some (JArr xs, rest)"
proof -
  obtain c cs where c: "SerializeJSONArray xs = c # cs" "value_start c"
    using SerializeJSONArray_head [OF assms(1)] by blast
  have f: "\<not> is_ws c" "c \<noteq> CHR '']''"
    using value_start_facts [OF c(2)] by simp_all
  have "\<not> is_ws (CHR ''['')" by (simp add: is_ws_def)
  then show ?thesis
    using assms(2) f by (simp add: c(1) skip_ws_Cons)
qed

lemma parse_value_object:
  assumes "kvs \<noteq> []" and "sorted_wrt key_before (map fst kvs)"
      and "parse_members m (SerializeJSONObject kvs @ CHR ''}'' # rest) = Some (kvs, rest)"
  shows "parse_value (Suc m) (CHR ''{'' # SerializeJSONObject kvs @ CHR ''}'' # rest) = Some (JObj kvs, rest)"
proof -
  obtain cs where c: "SerializeJSONObject kvs = CHR 0x22 # cs"
    using SerializeJSONObject_head [OF assms(1)] by blast
  have "\<not> is_ws (CHR ''{'')" "\<not> is_ws (CHR 0x22)" by (simp_all add: is_ws_def)
  then show ?thesis
    using assms(3) object_of_sorted [OF assms(2)] by (simp add: c skip_ws_Cons)
qed

lemma parse_elements_last:
  assumes "parse_value m (JSON_stringify x @ CHR '']'' # rest) = Some (x, CHR '']'' # rest)"
  shows "parse_elements (Suc m) (JSON_stringify x @ CHR '']'' # rest) = Some ([x], rest)"
  using assms by (simp add: skip_ws_def is_ws_def)

lemma parse_elements_more:
  assumes "parse_value m (JSON_stringify x @ CHR '','' # t) = Some (x, CHR '','' # t)"
      and "parse_elements m t = Some (ys, rest)"
  shows "parse_elements (Suc m) (JSON_stringify x @ CHR '','' # t) = Some (x # ys, rest)"
  using assms by (simp add: skip_ws_def is_ws_def cons_result_def)

lemma parse_members_last:
  assumes "parse_value m (JSON_stringify v @ CHR ''}'' # rest) = Some (v, CHR ''}'' # rest)"
  shows "parse_members (Suc m) (QuoteJSONString k @ CHR '':'' # JSON_stringify v @ CHR ''}'' # rest)
           = Some ([(k, v)], rest)"
  using assms
  by (simp add: QuoteJSONString_def skip_ws_def is_ws_def parse_string_chars_quoted)

lemma parse_members_more:
  assumes "parse_value m (JSON_stringify v @ CHR '','' # t) = Some (v, CHR '','' # t)"
      and "parse_members m t = Some (kvs, rest)"
  shows "parse_members (Suc m) (QuoteJSONString k @ CHR '':'' # JSON_stringify v @ CHR '','' # t)
           = Some ((k, v) # kvs, rest)"
  using assms
  by (simp add: QuoteJSONString_def skip_ws_def is_ws_def parse_string_chars_quoted cons_result_def)

lemma value_end_simps:
  "value_end (CHR '','' # t)" "value_end (CHR '']'' # t)" "value_end (CHR ''}'' # t)" "value_end []"
  by (simp_all add: value_end_def)

lemma cost_pos: "0 < cost v"
  by (cases v) simp_all

lemma parse_stringify:
  "js_value v \<Longrightarrow> cost v \<le> n \<Longrightarrow> value_end rest \<Longrightarrow>
     parse_value n (JSON_stringify v @ rest) = Some (v, rest)"
  "xs \<noteq> [] \<Longrightarrow> js_values xs \<Longrightarrow> cost_list xs \<le> n \<Longrightarrow>
     parse_elements n (SerializeJSONArray xs @ CHR '']'' # rest) = Some (xs, rest)"
  "kvs \<noteq> [] \<Longrightarrow> js_props kvs \<Longrightarrow> cost_props kvs \<le> n \<Longrightarrow>
     parse_members n (SerializeJSONObject kvs @ CHR ''}'' # rest) = Some (kvs, rest)"
proof (induction v and xs and kvs arbitrary: n rest and n rest and n rest
        rule: JSON_stringify_SerializeJSONArray_SerializeJSONObject.induct)
  case 1
  then obtain m where "n = Suc m" by (cases n) auto
  then show ?case using parse_value_null [of m rest] by simp
next
  case (2 b)
  then obtain m where "n = Suc m" by (cases n) auto
  then show ?case
    using parse_value_true [of m rest] parse_value_false [of m rest] by simp
next
  case (3 i)
  then obtain m where "n = Suc m" by (cases n) auto
  then show ?case using parse_value_number [OF "3.prems"(3), of i m] "3.prems"(1) by simp
next
  case (4 s)
  then obtain m where "n = Suc m" by (cases n) auto
  then show ?case using parse_value_string [of m s rest] by simp
next
  case (5 xs)
  from "5.prems" obtain m where n: "n = Suc m" and m: "cost_list xs \<le> m"
    by (cases n) auto
  show ?case
  proof (cases "xs = []")
    case True
    then show ?thesis using parse_value_empty_array [of m rest] n by simp
  next
    case False
    have "parse_elements m (SerializeJSONArray xs @ CHR '']'' # rest) = Some (xs, rest)"
      using "5.IH" [OF False _ m] "5.prems"(1) by simp
    then show ?thesis
      using parse_value_array [OF False, of m rest] n by simp
  qed
next
  case (6 kvs)
  from "6.prems" obtain m where n: "n = Suc m" and m: "cost_props kvs \<le> m"
    by (cases n) auto
  have srt: "sorted_wrt key_before (map fst kvs)" and props: "js_props kvs"
    using "6.prems"(1) by simp_all
  show ?case
  proof (cases "kvs = []")
    case True
    then show ?thesis using parse_value_empty_object [of m rest] n by simp
  next
    case False
    have "parse_members m (SerializeJSONObject kvs @ CHR ''}'' # rest) = Some (kvs, rest)"
      using "6.IH" [OF False props m] .
    then show ?thesis
      using parse_value_object [OF False srt, of m rest] n by simp
  qed
next
  case 7
  then show ?case by simp
next
  case (8 x)
  from "8.prems" obtain m where n: "n = Suc m" and m: "cost x \<le> m"
    by (cases n) auto
  have "parse_value m (JSON_stringify x @ CHR '']'' # rest) = Some (x, CHR '']'' # rest)"
    using "8.IH" [OF _ m value_end_simps(2)] "8.prems"(2) by simp
  then show ?case
    using parse_elements_last [of m x rest] n by simp
next
  case (9 x y ys)
  from "9.prems" obtain m where n: "n = Suc m" and m: "cost x \<le> m" "cost_list (y # ys) \<le> m"
    by (cases n) auto
  let ?t = "SerializeJSONArray (y # ys) @ CHR '']'' # rest"
  have a: "parse_value m (JSON_stringify x @ CHR '','' # ?t) = Some (x, CHR '','' # ?t)"
    using "9.IH"(1) [OF _ m(1) value_end_simps(1)] "9.prems"(2) by simp
  have b: "parse_elements m ?t = Some (y # ys, rest)"
    using "9.IH"(2) [OF _ _ m(2)] "9.prems"(2) by simp
  show ?case
    using parse_elements_more [OF a b] n by simp
next
  case 10
  then show ?case by simp
next
  case (11 k v)
  from "11.prems" obtain m where n: "n = Suc m" and m: "cost v \<le> m"
    by (cases n) auto
  have "parse_value m (JSON_stringify v @ CHR ''}'' # rest) = Some (v, CHR ''}'' # rest)"
    using "11.IH" [OF _ m value_end_simps(3)] "11.prems"(2) by simp
  then show ?case
    using parse_members_last [of m v rest k] n by simp
next
  case (12 k v kv kvs)
  from "12.prems" obtain m where n: "n = Suc m" and m: "cost v \<le> m" "cost_props (kv # kvs) \<le> m"
    by (cases n) auto
  let ?t = "SerializeJSONObject (kv # kvs) @ CHR ''}'' # rest"
  have a: "parse_value m (JSON_stringify v @ CHR '','' # ?t) = Some (v, CHR '','' # ?t)"
    using "12.IH"(1) [OF _ m(1) value_end_simps(1)] "12.prems"(2) by simp
  have b: "parse_members m ?t = Some (kv # kvs, rest)"
    using "12.IH"(2) [OF _ _ m(2)] "12.prems"(2) by simp
  show ?case
    using parse_members_more [OF a b] n by simp
qed

lemma cost_le_length:
  "cost v \<le> length (JSON_stringify v)"
  "cost_list xs \<le> Suc (length (SerializeJSONArray xs))"
  "cost_props kvs \<le> Suc (length (SerializeJSONObject kvs))"
proof (induction v and xs and kvs
        rule: JSON_stringify_SerializeJSONArray_SerializeJSONObject.induct)
  case (3 i)
  obtain c cs where "Number_toString i = c # cs"
    using Number_toString_head [of i] by blast
  then show ?case by simp
next
  case (4 s)
  show ?case by (simp add: QuoteJSONString_def)
qed (simp_all add: QuoteJSONString_def)

lemma JSON_parse_stringify:
  assumes "js_value v"
  shows "JSON_parse (JSON_stringify v) = Some v"
proof -
  have "parse_value (length (JSON_stringify v)) (JSON_stringify v @ []) = Some (v, [])"
    using assms cost_le_length(1) [of v] value_end_simps(4) by (rule parse_stringify(1))
  then show ?thesis
    by (simp add: JSON_parse_def skip_ws_def)
qed

lemma JSON_stringify_inj:
  assumes "js_value v1" and "js_value v2"
  shows "JSON_stringify v1 = JSON_stringify v2 \<longleftrightarrow> v1 = v2"
proof
  assume "JSON_stringify v1 = JSON_stringify v2"
  then have "JSON_parse (JSON_stringify v1) = JSON_parse (JSON_stringify v2)" by simp
  then show "v1 = v2"
    using assms by (simp add: JSON_parse_stringify)
qed simp

subsection \<open>The format of an identifier\<close>

lemma hexdig_lower: "hexdig n \<in> set ''0123456789abcdef''"
  unfolding hexdig_def by (rule nth_mem) simp

lemma hex_bytes_lower: "list_all (\<lambda>c. c \<in> set ''0123456789abcdef'') (concat (map hex_byte bs))"
  using hexdig_lower by (induction bs) (simp_all add: hex_byte_def del: set_simps)

lemma keccak256_format: "id_format_spec (keccak256 bs)"
  unfolding id_format_spec_def
  using hex_bytes_lower [of "keccak256_bytes bs"]
  by (simp add: keccak256_def length_hexlify length_keccak256_bytes take_2_hexlify drop_2_hexlify
        del: set_simps)

lemma vote_id_format: "id_format_spec (vote_id v)"
  unfolding vote_id_def by (rule keccak256_format)

lemma getBytes_vote_id: "getBytes (vote_id v) = Some (vote_id_bytes v)"
  by (simp add: vote_id_def vote_id_bytes_def getBytes_keccak256)

lemma length_vote_id_bytes: "length (vote_id_bytes v) = 32"
  by (simp add: vote_id_bytes_def length_keccak256_bytes)

subsection \<open>Create, then get\<close>

lemma select_by_id:
  "db_up w \<Longrightarrow>
   db_execute (SELECT_by_id i) w =
     (w\<lparr>log := log w @ [Executed (SELECT_by_id i)]\<rparr>, Inr (filter (\<lambda>r. row_id r = i) (rows w)))"
  by (simp add: db_execute_def Let_def)

lemma vote_id_accepted: "\<not> (vote_id d = [] \<or> \<not> isHexString (vote_id d) (Some 32))"
  using id_format_spec_any_case [OF vote_id_format [of d]] id_format_nonempty [of "vote_id d"]
  by (simp add: isHexString_32)

lemma filter_new_row:
  assumes "i \<notin> set (map row_id rs)" and "row_id row = i"
  shows "filter (\<lambda>r. row_id r = i) (rs @ [row]) = [row]"
proof -
  have "filter (\<lambda>r. row_id r = i) rs = []"
    using assms(1) by (induction rs) auto
  then show ?thesis using assms(2) by simp
qed

lemma get_after_create:
  assumes "db_up w" and "vote_id d \<notin> set (map row_id (rows w))" and "js_value d"
      and "w1 = w\<lparr>log := l, rows := rows w @ [stored_row E key d sr (now w)]\<rparr>"
  shows "res_status (snd (handleGetVote (vote_id d) w1)) = 200"
    and "returned_data (snd (handleGetVote (vote_id d) w1)) = Some d"
    and "res_status (snd (handleGetVote_v1 (vote_id d) w1)) = 200"
    and "returned_data (snd (handleGetVote_v1 (vote_id d) w1)) = Some d"
proof -
  have up: "db_up w1" using assms(1,4) by simp
  have f: "filter (\<lambda>r. row_id r = vote_id d) (rows w1) = [stored_row E key d sr (now w)]"
    using filter_new_row [OF assms(2), of "stored_row E key d sr (now w)"] assms(4)
    by (simp add: stored_row_def)
  have p: "JSON_parse (row_data (stored_row E key d sr (now w))) = Some d"
    using JSON_parse_stringify [OF assms(3)] by (simp add: stored_row_def)
  show "res_status (snd (handleGetVote (vote_id d) w1)) = 200"
       "returned_data (snd (handleGetVote (vote_id d) w1)) = Some d"
    using vote_id_accepted [of d] p
    by (simp_all add: handleGetVote_def select_by_id [OF up] f returned_data_def json_field_def)
  show "res_status (snd (handleGetVote_v1 (vote_id d) w1)) = 200"
       "returned_data (snd (handleGetVote_v1 (vote_id d) w1)) = Some d"
    using vote_id_accepted [of d] p
    by (simp_all add: handleGetVote_v1_def select_by_id [OF up] f returned_data_def json_field_def)
qed

text \<open>
  Create, then get, for the values of the model.  Let a create of the payload \<open>d\<close>
  answer 201 with the identifier \<open>i\<close> in its \<^verbatim>\<open>data.id\<close> and leave the state
  \<open>w1\<close>, where \<open>d\<close> satisfies \<^const>\<open>js_value\<close>: its numbers are safe integers and
  its strings have code units below \<open>0x100\<close>.  Then the get of \<open>i\<close> on \<open>w1\<close> answers
  200, and the \<^verbatim>\<open>data.data\<close> of the answer is \<open>d\<close> itself: \<^verbatim>\<open>JSON.parse\<close> reads
  back what \<^verbatim>\<open>JSON.stringify\<close> wrote into the row.  Both revisions.

  This is not the round trip for every value that JSON can carry.  The numbers of
  JavaScript are the IEEE 754 doubles, printed with the fewest digits that read back to
  the same double; they are outside the model, and so is the one number that does not come
  back as it went, the negative zero, which \<^verbatim>\<open>JSON.stringify\<close> prints as \<^verbatim>\<open>0\<close>.
\<close>

lemma create_get_round_trip:
  "(post_votes E key r w = (w1, res) \<and> res_status res = 201 \<and> req_data r = Some d \<and> js_value d \<longrightarrow>
      (\<exists>i. created_id res = Some i
          \<and> res_status (snd (handleGetVote i w1)) = 200
          \<and> returned_data (snd (handleGetVote i w1)) = Some d))
   \<and> (post_votes_v1 E key r w = (w1, res) \<and> res_status res = 201 \<and> req_data r = Some d \<and> js_value d \<longrightarrow>
      (\<exists>i. created_id res = Some i
          \<and> res_status (snd (handleGetVote_v1 i w1)) = 200
          \<and> returned_data (snd (handleGetVote_v1 i w1)) = Some d))"
proof (intro conjI impI)
  assume a: "post_votes E key r w = (w1, res) \<and> res_status res = 201 \<and> req_data r = Some d \<and> js_value d"
  then obtain d' and vr :: validation_result where c: "req_data r = Some d'" "db_up w"
      "vote_id d' \<notin> set (map row_id (rows w))"
      "w1 = w\<lparr>log := log w @ [Signed (vote_id_bytes d'),
                                Executed (insert_of E key d' (recoveredSigner vr))],
               rows := rows w @ [stored_row E key d' (recoveredSigner vr) (now w)]\<rparr>"
    using post_votes_created [of E key r w w1 res] by blast
  have dd: "d' = d" using a c(1) by simp
  have i: "created_id res = Some (vote_id d)"
    using post_votes_created_id [of E key r w w1 res d] a by simp
  show "\<exists>i. created_id res = Some i
          \<and> res_status (snd (handleGetVote i w1)) = 200
          \<and> returned_data (snd (handleGetVote i w1)) = Some d"
    using i get_after_create(1,2) [OF c(2) c(3) [unfolded dd] _ c(4) [unfolded dd]] a
    by (intro exI [of _ "vote_id d"]) simp
next
  assume a: "post_votes_v1 E key r w = (w1, res) \<and> res_status res = 201 \<and> req_data r = Some d \<and> js_value d"
  then obtain d' where c: "req_data r = Some d'" "db_up w"
      "vote_id d' \<notin> set (map row_id (rows w))"
      "w1 = w\<lparr>log := log w @ [Signed (vote_id_bytes d'), Executed (insert_of E key d' None)],
               rows := rows w @ [stored_row E key d' None (now w)]\<rparr>"
    using post_votes_v1_created [of E key r w w1 res] by blast
  have dd: "d' = d" using a c(1) by simp
  have i: "created_id res = Some (vote_id d)"
    using post_votes_v1_created_id [of E key r w w1 res d] a by simp
  show "\<exists>i. created_id res = Some i
          \<and> res_status (snd (handleGetVote_v1 i w1)) = 200
          \<and> returned_data (snd (handleGetVote_v1 i w1)) = Some d"
    using i get_after_create(3,4) [OF c(2) c(3) [unfolded dd] _ c(4) [unfolded dd]] a
    by (intro exI [of _ "vote_id d"]) simp
qed

lemma sample_vote_js_value: "js_value sample_vote"
  by (simp add: sample_vote_def key_before_def array_index_def is_digit_def)

lemma create_get_round_trip_sample:
  "res_status (snd (post_votes sample_ec sample_key sample_request empty_world)) = 201
   \<and> req_data sample_request = Some sample_vote \<and> js_value sample_vote
   \<and> created_id (snd (post_votes sample_ec sample_key sample_request empty_world))
        = Some (vote_id sample_vote)
   \<and> returned_data (snd (handleGetVote (vote_id sample_vote)
        (fst (post_votes sample_ec sample_key sample_request empty_world)))) = Some sample_vote
   \<and> res_status (snd (post_votes_v1 sample_ec sample_key sample_request empty_world)) = 201
   \<and> returned_data (snd (handleGetVote_v1 (vote_id sample_vote)
        (fst (post_votes_v1 sample_ec sample_key sample_request empty_world)))) = Some sample_vote"
proof -
  have a: "res_status (snd (post_votes sample_ec sample_key sample_request empty_world)) = 201"
          "created_id (snd (post_votes sample_ec sample_key sample_request empty_world))
             = Some (vote_id sample_vote)"
    by (simp_all add: sample_created created_id_def json_field_def)
  have b: "res_status (snd (post_votes_v1 sample_ec sample_key sample_request empty_world)) = 201"
          "created_id (snd (post_votes_v1 sample_ec sample_key sample_request empty_world))
             = Some (vote_id sample_vote)"
    by (simp_all add: sample_created_v1 created_id_def json_field_def)
  have d: "req_data sample_request = Some sample_vote"
    by (simp add: sample_request_def)
  show ?thesis
    using a b d sample_vote_js_value
      create_get_round_trip [of sample_ec sample_key sample_request empty_world
        "fst (post_votes sample_ec sample_key sample_request empty_world)"
        "snd (post_votes sample_ec sample_key sample_request empty_world)" sample_vote]
      create_get_round_trip [of sample_ec sample_key sample_request empty_world
        "fst (post_votes_v1 sample_ec sample_key sample_request empty_world)"
        "snd (post_votes_v1 sample_ec sample_key sample_request empty_world)" sample_vote]
    by auto
qed

subsection \<open>Three digests\<close>

text \<open>The digest of the empty message is the published one,
  \<^verbatim>\<open>c5d24601...5d85a470\<close>; the other two are the identifiers of \<^const>\<open>ab_vote\<close> and
  \<^const>\<open>ba_vote\<close>.\<close>

lemma keccak256_bytes_one_block:
  "drop 136 (keccak_pad m) = [] \<Longrightarrow>
     keccak256_bytes m =
       squeeze32 (keccak_f (xor_state zero_state (block_state (lanes_of_bytes (keccak_pad m)))))"
  by (simp add: keccak256_bytes_def absorb.simps [of zero_state] absorb_block_def)

lemma digits_1: "digits (Suc 0) = ''1''"
  by (simp add: digits.simps [of "Suc 0"] digit_char_def)

lemma digits_2: "digits 2 = ''2''"
  by (simp add: digits.simps [of 2] digit_char_def)

lemma ab_bytes:
  "toUtf8Bytes (JSON_stringify ab_vote) = [123, 34, 97, 34, 58, 49, 44, 34, 98, 34, 58, 50, 125]"
  by (simp add: ab_vote_def QuoteJSONString_def quote_char_def Number_toString_def digits_1 digits_2
        toUtf8Bytes_def utf8_char_def)

lemma ba_bytes:
  "toUtf8Bytes (JSON_stringify ba_vote) = [123, 34, 98, 34, 58, 50, 44, 34, 97, 34, 58, 49, 125]"
  by (simp add: ba_vote_def QuoteJSONString_def quote_char_def Number_toString_def digits_1 digits_2
        toUtf8Bytes_def utf8_char_def)

lemma empty_pad:
  "keccak_pad [] =
     [1, 0, 0, 0, 0, 0, 0, 0, 0, 0, 0, 0, 0, 0, 0, 0, 0, 0, 0, 0, 0, 0, 0, 0, 0, 0, 0, 0,
      0, 0, 0, 0, 0, 0, 0, 0, 0, 0, 0, 0, 0, 0, 0, 0, 0, 0, 0, 0, 0, 0, 0, 0, 0, 0, 0, 0,
      0, 0, 0, 0, 0, 0, 0, 0, 0, 0, 0, 0, 0, 0, 0, 0, 0, 0, 0, 0, 0, 0, 0, 0, 0, 0, 0, 0,
      0, 0, 0, 0, 0, 0, 0, 0, 0, 0, 0, 0, 0, 0, 0, 0, 0, 0, 0, 0, 0, 0, 0, 0, 0, 0, 0, 0,
      0, 0, 0, 0, 0, 0, 0, 0, 0, 0, 0, 0, 0, 0, 0, 0, 0, 0, 0, 0, 0, 0, 0, 128]"
  by code_simp

lemma empty_block:
  "xor_state zero_state (block_state (lanes_of_bytes
     [1, 0, 0, 0, 0, 0, 0, 0, 0, 0, 0, 0, 0, 0, 0, 0, 0, 0, 0, 0, 0, 0, 0, 0, 0, 0, 0, 0,
      0, 0, 0, 0, 0, 0, 0, 0, 0, 0, 0, 0, 0, 0, 0, 0, 0, 0, 0, 0, 0, 0, 0, 0, 0, 0, 0, 0,
      0, 0, 0, 0, 0, 0, 0, 0, 0, 0, 0, 0, 0, 0, 0, 0, 0, 0, 0, 0, 0, 0, 0, 0, 0, 0, 0, 0,
      0, 0, 0, 0, 0, 0, 0, 0, 0, 0, 0, 0, 0, 0, 0, 0, 0, 0, 0, 0, 0, 0, 0, 0, 0, 0, 0, 0,
      0, 0, 0, 0, 0, 0, 0, 0, 0, 0, 0, 0, 0, 0, 0, 0, 0, 0, 0, 0, 0, 0, 0, 128])) =
     KState
       (Plane 1 0 0 0 0)
       (Plane 0 0 0 0 0)
       (Plane 0 0 0 0 0)
       (Plane 0 9223372036854775808 0 0 0)
       (Plane 0 0 0 0 0)"
  by (simp add: zero_state_def zero_plane_def block_state_def lane_at_def lane_of_bytes_def)

lemma empty_permuted:
  "keccak_f
     (KState
       (Plane 1 0 0 0 0)
       (Plane 0 0 0 0 0)
       (Plane 0 0 0 0 0)
       (Plane 0 9223372036854775808 0 0 0)
       (Plane 0 0 0 0 0)) =
     KState
       (Plane 4333579421379646149 13836122230913597074 4262519377828905189 8116759062988257915 8406387447366859581)
       (Plane 14671339323370021561 2243375101132795228 9371364203318886753 9347994793612953298 12814238161780307547)
       (Plane 4391692840257016808 4309499098775122448 13438072403645551266 18018124564071650747 4323130096954625545)
       (Plane 16970298442240338249 1971761234120675839 450719451514497906 18340686150147091359 11254645818134300982)
       (Plane 16062291397582171322 1601982631079003425 7734681229251997073 13256946727218518206 11816912122432958423)"
  by (simp add: keccak_f_def keccak_rc_def keccak_round_def theta_def rotl64_def not64_def)

lemma empty_squeezed:
  "squeeze32
     (KState
       (Plane 4333579421379646149 13836122230913597074 4262519377828905189 8116759062988257915 8406387447366859581)
       (Plane 14671339323370021561 2243375101132795228 9371364203318886753 9347994793612953298 12814238161780307547)
       (Plane 4391692840257016808 4309499098775122448 13438072403645551266 18018124564071650747 4323130096954625545)
       (Plane 16970298442240338249 1971761234120675839 450719451514497906 18340686150147091359 11254645818134300982)
       (Plane 16062291397582171322 1601982631079003425 7734681229251997073 13256946727218518206 11816912122432958423)) =
     [197, 210, 70, 1, 134, 247, 35, 60, 146, 126, 125, 178, 220, 199, 3, 192, 229, 0,
      182, 83, 202, 130, 39, 59, 123, 250, 216, 4, 93, 133, 164, 112]"
  by (simp add: bytes_of_lane_def)

lemma empty_digest:
  "keccak256_bytes [] =
     [197, 210, 70, 1, 134, 247, 35, 60, 146, 126, 125, 178, 220, 199, 3, 192, 229, 0,
      182, 83, 202, 130, 39, 59, 123, 250, 216, 4, 93, 133, 164, 112]"
proof -
  have d: "drop 136 (keccak_pad []) = []"
    by (simp add: empty_pad)
  show ?thesis
    by (simp only: keccak256_bytes_one_block [OF d] empty_pad empty_block empty_permuted empty_squeezed)
qed

lemma empty_keccak256:
  "keccak256 [] =
     ''0xc5d2460186f7233c927e7db2dcc703c0e500b653ca82273b7bfad8045d85a470''"
  unfolding keccak256_def empty_digest by (simp add: hexlify_def hex_byte_def hexdig_def)

lemma ab_pad:
  "keccak_pad [123, 34, 97, 34, 58, 49, 44, 34, 98, 34, 58, 50, 125] =
     [123, 34, 97, 34, 58, 49, 44, 34, 98, 34, 58, 50, 125, 1, 0, 0, 0, 0, 0, 0, 0, 0, 0,
      0, 0, 0, 0, 0, 0, 0, 0, 0, 0, 0, 0, 0, 0, 0, 0, 0, 0, 0, 0, 0, 0, 0, 0, 0, 0, 0, 0,
      0, 0, 0, 0, 0, 0, 0, 0, 0, 0, 0, 0, 0, 0, 0, 0, 0, 0, 0, 0, 0, 0, 0, 0, 0, 0, 0, 0,
      0, 0, 0, 0, 0, 0, 0, 0, 0, 0, 0, 0, 0, 0, 0, 0, 0, 0, 0, 0, 0, 0, 0, 0, 0, 0, 0, 0,
      0, 0, 0, 0, 0, 0, 0, 0, 0, 0, 0, 0, 0, 0, 0, 0, 0, 0, 0, 0, 0, 0, 0, 0, 0, 0, 0, 0,
      128]"
  by code_simp

lemma ab_block:
  "xor_state zero_state (block_state (lanes_of_bytes
     [123, 34, 97, 34, 58, 49, 44, 34, 98, 34, 58, 50, 125, 1, 0, 0, 0, 0, 0, 0, 0, 0, 0,
      0, 0, 0, 0, 0, 0, 0, 0, 0, 0, 0, 0, 0, 0, 0, 0, 0, 0, 0, 0, 0, 0, 0, 0, 0, 0, 0, 0,
      0, 0, 0, 0, 0, 0, 0, 0, 0, 0, 0, 0, 0, 0, 0, 0, 0, 0, 0, 0, 0, 0, 0, 0, 0, 0, 0, 0,
      0, 0, 0, 0, 0, 0, 0, 0, 0, 0, 0, 0, 0, 0, 0, 0, 0, 0, 0, 0, 0, 0, 0, 0, 0, 0, 0, 0,
      0, 0, 0, 0, 0, 0, 0, 0, 0, 0, 0, 0, 0, 0, 0, 0, 0, 0, 0, 0, 0, 0, 0, 0, 0, 0, 0, 0,
      128])) =
     KState
       (Plane 2462397222019474043 1637225210466 0 0 0)
       (Plane 0 0 0 0 0)
       (Plane 0 0 0 0 0)
       (Plane 0 9223372036854775808 0 0 0)
       (Plane 0 0 0 0 0)"
  by (simp add: zero_state_def zero_plane_def block_state_def lane_at_def lane_of_bytes_def)

lemma ab_permuted:
  "keccak_f
     (KState
       (Plane 2462397222019474043 1637225210466 0 0 0)
       (Plane 0 0 0 0 0)
       (Plane 0 0 0 0 0)
       (Plane 0 9223372036854775808 0 0 0)
       (Plane 0 0 0 0 0)) =
     KState
       (Plane 5440087912839839672 4581352891983660560 2861091483567023744 12719007427651237094 9007501492520332415)
       (Plane 13058899754193288139 10058242286623443523 4810542877563023794 5552724352528286265 7066095924499320034)
       (Plane 12035019105585091268 6265869719612647078 14977935363747334304 7312811287753176282 6563652079393633384)
       (Plane 2182693207526709884 9143685144034530073 4288180892388907171 9466935018194105742 2543315605547009301)
       (Plane 7192532570819291030 1977742806712307803 9765799309268333938 17510719223049011677 18068962487148610631)"
  by (simp add: keccak_f_def keccak_rc_def keccak_round_def theta_def rotl64_def not64_def)

lemma ab_squeezed:
  "squeeze32
     (KState
       (Plane 5440087912839839672 4581352891983660560 2861091483567023744 12719007427651237094 9007501492520332415)
       (Plane 13058899754193288139 10058242286623443523 4810542877563023794 5552724352528286265 7066095924499320034)
       (Plane 12035019105585091268 6265869719612647078 14977935363747334304 7312811287753176282 6563652079393633384)
       (Plane 2182693207526709884 9143685144034530073 4288180892388907171 9466935018194105742 2543315605547009301)
       (Plane 7192532570819291030 1977742806712307803 9765799309268333938 17510719223049011677 18068962487148610631)) =
     [184, 255, 182, 71, 34, 19, 127, 75, 16, 6, 101, 165, 46, 60, 148, 63, 128, 102,
      232, 171, 139, 163, 180, 39, 230, 244, 180, 4, 222, 253, 130, 176]"
  by (simp add: bytes_of_lane_def)

lemma ab_digest:
  "keccak256_bytes [123, 34, 97, 34, 58, 49, 44, 34, 98, 34, 58, 50, 125] =
     [184, 255, 182, 71, 34, 19, 127, 75, 16, 6, 101, 165, 46, 60, 148, 63, 128, 102,
      232, 171, 139, 163, 180, 39, 230, 244, 180, 4, 222, 253, 130, 176]"
proof -
  have d: "drop 136 (keccak_pad [123, 34, 97, 34, 58, 49, 44, 34, 98, 34, 58, 50, 125]) = []"
    by (simp add: ab_pad)
  show ?thesis
    by (simp only: keccak256_bytes_one_block [OF d] ab_pad ab_block ab_permuted ab_squeezed)
qed

lemma ab_keccak256:
  "keccak256 [123, 34, 97, 34, 58, 49, 44, 34, 98, 34, 58, 50, 125] =
     ''0xb8ffb64722137f4b100665a52e3c943f8066e8ab8ba3b427e6f4b404defd82b0''"
  unfolding keccak256_def ab_digest by (simp add: hexlify_def hex_byte_def hexdig_def)

lemma ba_pad:
  "keccak_pad [123, 34, 98, 34, 58, 50, 44, 34, 97, 34, 58, 49, 125] =
     [123, 34, 98, 34, 58, 50, 44, 34, 97, 34, 58, 49, 125, 1, 0, 0, 0, 0, 0, 0, 0, 0, 0,
      0, 0, 0, 0, 0, 0, 0, 0, 0, 0, 0, 0, 0, 0, 0, 0, 0, 0, 0, 0, 0, 0, 0, 0, 0, 0, 0, 0,
      0, 0, 0, 0, 0, 0, 0, 0, 0, 0, 0, 0, 0, 0, 0, 0, 0, 0, 0, 0, 0, 0, 0, 0, 0, 0, 0, 0,
      0, 0, 0, 0, 0, 0, 0, 0, 0, 0, 0, 0, 0, 0, 0, 0, 0, 0, 0, 0, 0, 0, 0, 0, 0, 0, 0, 0,
      0, 0, 0, 0, 0, 0, 0, 0, 0, 0, 0, 0, 0, 0, 0, 0, 0, 0, 0, 0, 0, 0, 0, 0, 0, 0, 0, 0,
      128]"
  by code_simp

lemma ba_block:
  "xor_state zero_state (block_state (lanes_of_bytes
     [123, 34, 98, 34, 58, 50, 44, 34, 97, 34, 58, 49, 125, 1, 0, 0, 0, 0, 0, 0, 0, 0, 0,
      0, 0, 0, 0, 0, 0, 0, 0, 0, 0, 0, 0, 0, 0, 0, 0, 0, 0, 0, 0, 0, 0, 0, 0, 0, 0, 0, 0,
      0, 0, 0, 0, 0, 0, 0, 0, 0, 0, 0, 0, 0, 0, 0, 0, 0, 0, 0, 0, 0, 0, 0, 0, 0, 0, 0, 0,
      0, 0, 0, 0, 0, 0, 0, 0, 0, 0, 0, 0, 0, 0, 0, 0, 0, 0, 0, 0, 0, 0, 0, 0, 0, 0, 0, 0,
      0, 0, 0, 0, 0, 0, 0, 0, 0, 0, 0, 0, 0, 0, 0, 0, 0, 0, 0, 0, 0, 0, 0, 0, 0, 0, 0, 0,
      128])) =
     KState
       (Plane 2462398321531167355 1637208433249 0 0 0)
       (Plane 0 0 0 0 0)
       (Plane 0 0 0 0 0)
       (Plane 0 9223372036854775808 0 0 0)
       (Plane 0 0 0 0 0)"
  by (simp add: zero_state_def zero_plane_def block_state_def lane_at_def lane_of_bytes_def)

lemma ba_permuted:
  "keccak_f
     (KState
       (Plane 2462398321531167355 1637208433249 0 0 0)
       (Plane 0 0 0 0 0)
       (Plane 0 0 0 0 0)
       (Plane 0 9223372036854775808 0 0 0)
       (Plane 0 0 0 0 0)) =
     KState
       (Plane 1962224202154628455 12552181002571325000 11447017680294215759 4948193948692635244 6629983303978372231)
       (Plane 4838739625611192735 2522114779765358828 18326848887564286528 9951848395433233671 9935163468288180504)
       (Plane 15991904882478321418 13264561812090421837 2546445710574743292 7909115991547391251 13240927169139648705)
       (Plane 3842180790042630795 16761502049018939889 7391442129161506417 3834125681476852527 867636629263668310)
       (Plane 10199816762871245233 6065867819929191801 6095876627558266687 9210152619125725662 15824175148227798970)"
  by (simp add: keccak_f_def keccak_rc_def keccak_round_def theta_def rotl64_def not64_def)

lemma ba_squeezed:
  "squeeze32
     (KState
       (Plane 1962224202154628455 12552181002571325000 11447017680294215759 4948193948692635244 6629983303978372231)
       (Plane 4838739625611192735 2522114779765358828 18326848887564286528 9951848395433233671 9935163468288180504)
       (Plane 15991904882478321418 13264561812090421837 2546445710574743292 7909115991547391251 13240927169139648705)
       (Plane 3842180790042630795 16761502049018939889 7391442129161506417 3834125681476852527 867636629263668310)
       (Plane 10199816762871245233 6065867819929191801 6095876627558266687 9210152619125725662 15824175148227798970)) =
     [103, 213, 25, 251, 131, 56, 59, 27, 72, 158, 171, 22, 30, 78, 50, 174, 79, 128,
      141, 107, 238, 249, 219, 158, 108, 222, 143, 255, 45, 132, 171, 68]"
  by (simp add: bytes_of_lane_def)

lemma ba_digest:
  "keccak256_bytes [123, 34, 98, 34, 58, 50, 44, 34, 97, 34, 58, 49, 125] =
     [103, 213, 25, 251, 131, 56, 59, 27, 72, 158, 171, 22, 30, 78, 50, 174, 79, 128,
      141, 107, 238, 249, 219, 158, 108, 222, 143, 255, 45, 132, 171, 68]"
proof -
  have d: "drop 136 (keccak_pad [123, 34, 98, 34, 58, 50, 44, 34, 97, 34, 58, 49, 125]) = []"
    by (simp add: ba_pad)
  show ?thesis
    by (simp only: keccak256_bytes_one_block [OF d] ba_pad ba_block ba_permuted ba_squeezed)
qed

lemma ba_keccak256:
  "keccak256 [123, 34, 98, 34, 58, 50, 44, 34, 97, 34, 58, 49, 125] =
     ''0x67d519fb83383b1b489eab161e4e32ae4f808d6beef9db9e6cde8fff2d84ab44''"
  unfolding keccak256_def ba_digest by (simp add: hexlify_def hex_byte_def hexdig_def)

subsection \<open>The digest of a signed message\<close>

text \<open>The documentation of the library gives the digest of the message
  \<^verbatim>\<open>Hello World\<close>: \<^verbatim>\<open>hashMessage("Hello World")\<close> is
  \<^verbatim>\<open>0xa1de9886...bb3b78f2\<close>.  The model computes it: the digest of the byte \<open>0x19\<close>,
  the text \<^verbatim>\<open>Ethereum Signed Message:\<close>, a line feed, the length \<^verbatim>\<open>11\<close> and the 11
  bytes of the message.\<close>

lemma digits_11: "digits 11 = ''11''"
  by (simp add: digits.simps [of 11] digits.simps [of "Suc 0"] digit_char_def)

lemma hello_message:
  "toUtf8Bytes ''Hello World'' = [72, 101, 108, 108, 111, 32, 87, 111, 114, 108, 100]"
  by (simp add: toUtf8Bytes_def utf8_char_def)

lemma hello_length: "length [72, 101, 108, 108, 111, 32, 87, 111, 114, 108, 100 :: byte] = 11"
  by simp

lemma hello_bytes:
  "toUtf8Bytes MessagePrefix @ toUtf8Bytes (digits (length (toUtf8Bytes ''Hello World'')))
     @ toUtf8Bytes ''Hello World'' =
     [25, 69, 116, 104, 101, 114, 101, 117, 109, 32, 83, 105, 103, 110, 101, 100, 32,
      77, 101, 115, 115, 97, 103, 101, 58, 10, 49, 49, 72, 101, 108, 108, 111, 32, 87,
      111, 114, 108, 100]"
  unfolding hello_message hello_length digits_11
  by (simp add: MessagePrefix_def toUtf8Bytes_def utf8_char_def)

lemma hello_pad:
  "keccak_pad [25, 69, 116, 104, 101, 114, 101, 117, 109, 32, 83, 105, 103, 110, 101, 100, 32,
      77, 101, 115, 115, 97, 103, 101, 58, 10, 49, 49, 72, 101, 108, 108, 111, 32, 87,
      111, 114, 108, 100] =
     [25, 69, 116, 104, 101, 114, 101, 117, 109, 32, 83, 105, 103, 110, 101, 100, 32,
      77, 101, 115, 115, 97, 103, 101, 58, 10, 49, 49, 72, 101, 108, 108, 111, 32, 87,
      111, 114, 108, 100, 1, 0, 0, 0, 0, 0, 0, 0, 0, 0, 0, 0, 0, 0, 0, 0, 0, 0, 0, 0, 0,
      0, 0, 0, 0, 0, 0, 0, 0, 0, 0, 0, 0, 0, 0, 0, 0, 0, 0, 0, 0, 0, 0, 0, 0, 0, 0, 0, 0,
      0, 0, 0, 0, 0, 0, 0, 0, 0, 0, 0, 0, 0, 0, 0, 0, 0, 0, 0, 0, 0, 0, 0, 0, 0, 0, 0, 0,
      0, 0, 0, 0, 0, 0, 0, 0, 0, 0, 0, 0, 0, 0, 0, 0, 0, 0, 0, 128]"
  by code_simp

lemma hello_block:
  "xor_state zero_state (block_state (lanes_of_bytes
     [25, 69, 116, 104, 101, 114, 101, 117, 109, 32, 83, 105, 103, 110, 101, 100, 32,
      77, 101, 115, 115, 97, 103, 101, 58, 10, 49, 49, 72, 101, 108, 108, 111, 32, 87,
      111, 114, 108, 100, 1, 0, 0, 0, 0, 0, 0, 0, 0, 0, 0, 0, 0, 0, 0, 0, 0, 0, 0, 0, 0,
      0, 0, 0, 0, 0, 0, 0, 0, 0, 0, 0, 0, 0, 0, 0, 0, 0, 0, 0, 0, 0, 0, 0, 0, 0, 0, 0, 0,
      0, 0, 0, 0, 0, 0, 0, 0, 0, 0, 0, 0, 0, 0, 0, 0, 0, 0, 0, 0, 0, 0, 0, 0, 0, 0, 0, 0,
      0, 0, 0, 0, 0, 0, 0, 0, 0, 0, 0, 0, 0, 0, 0, 0, 0, 0, 0, 128])) =
     KState
       (Plane 8459293254955058457 7234309766868312173 7306916068917071136 7812730814318316090 100324330459045999)
       (Plane 0 0 0 0 0)
       (Plane 0 0 0 0 0)
       (Plane 0 9223372036854775808 0 0 0)
       (Plane 0 0 0 0 0)"
  by (simp add: zero_state_def zero_plane_def block_state_def lane_at_def lane_of_bytes_def)

lemma hello_permuted:
  "keccak_f
     (KState
       (Plane 8459293254955058457 7234309766868312173 7306916068917071136 7812730814318316090 100324330459045999)
       (Plane 0 0 0 0 0)
       (Plane 0 0 0 0 0)
       (Plane 0 9223372036854775808 0 0 0)
       (Plane 0 0 0 0 0)) =
     KState
       (Plane 5416884773984984737 1692272750397861962 15573536974256946389 17471780432228026925 11313998165712865964)
       (Plane 14585636404689190734 5841974299480224980 1579053415505277403 9843487938359758560 867126122824749533)
       (Plane 10635445988773983771 12965171487673449084 4293243770922556686 10147062547666062209 859011895248104192)
       (Plane 17147930424063061135 12124014045633991582 11337266569436578376 12619795277006664396 13340790140253296786)
       (Plane 14850340908226755555 3985694986174376498 2947305840563750808 15124660617836016652 10019340314060014970)"
  by (simp add: keccak_f_def keccak_rc_def keccak_round_def theta_def rotl64_def not64_def)

lemma hello_squeezed:
  "squeeze32
     (KState
       (Plane 5416884773984984737 1692272750397861962 15573536974256946389 17471780432228026925 11313998165712865964)
       (Plane 14585636404689190734 5841974299480224980 1579053415505277403 9843487938359758560 867126122824749533)
       (Plane 10635445988773983771 12965171487673449084 4293243770922556686 10147062547666062209 859011895248104192)
       (Plane 17147930424063061135 12124014045633991582 11337266569436578376 12619795277006664396 13340790140253296786)
       (Plane 14850340908226755555 3985694986174376498 2947305840563750808 15124660617836016652 10019340314060014970)) =
     [161, 222, 152, 134, 0, 164, 44, 75, 74, 176, 137, 182, 25, 41, 124, 23, 213, 60,
      255, 174, 93, 81, 32, 216, 45, 138, 146, 208, 187, 59, 120, 242]"
  by (simp add: bytes_of_lane_def)

lemma hello_digest:
  "keccak256_bytes [25, 69, 116, 104, 101, 114, 101, 117, 109, 32, 83, 105, 103, 110, 101, 100, 32,
      77, 101, 115, 115, 97, 103, 101, 58, 10, 49, 49, 72, 101, 108, 108, 111, 32, 87,
      111, 114, 108, 100] =
     [161, 222, 152, 134, 0, 164, 44, 75, 74, 176, 137, 182, 25, 41, 124, 23, 213, 60,
      255, 174, 93, 81, 32, 216, 45, 138, 146, 208, 187, 59, 120, 242]"
proof -
  have d: "drop 136 (keccak_pad [25, 69, 116, 104, 101, 114, 101, 117, 109, 32, 83, 105, 103, 110, 101, 100, 32,
      77, 101, 115, 115, 97, 103, 101, 58, 10, 49, 49, 72, 101, 108, 108, 111, 32, 87,
      111, 114, 108, 100]) = []"
    by (simp add: hello_pad)
  show ?thesis
    by (simp only: keccak256_bytes_one_block [OF d] hello_pad hello_block hello_permuted hello_squeezed)
qed

lemma hello_keccak256:
  "keccak256 [25, 69, 116, 104, 101, 114, 101, 117, 109, 32, 83, 105, 103, 110, 101, 100, 32,
      77, 101, 115, 115, 97, 103, 101, 58, 10, 49, 49, 72, 101, 108, 108, 111, 32, 87,
      111, 114, 108, 100] =
     ''0xa1de988600a42c4b4ab089b619297c17d53cffae5d5120d82d8a92d0bb3b78f2''"
  unfolding keccak256_def hello_digest by (simp add: hexlify_def hex_byte_def hexdig_def)

lemma hashMessage_Hello_World:
  "hashMessage (toUtf8Bytes ''Hello World'') =
     ''0xa1de988600a42c4b4ab089b619297c17d53cffae5d5120d82d8a92d0bb3b78f2''"
  unfolding hashMessage_def by (simp only: hello_bytes hello_keccak256)

subsection \<open>The identifier and the order of the keys\<close>

lemma ab_vote_id:
  "vote_id ab_vote = ''0xb8ffb64722137f4b100665a52e3c943f8066e8ab8ba3b427e6f4b404defd82b0''"
  by (simp only: vote_id_def ab_bytes ab_keccak256)

lemma ba_vote_id:
  "vote_id ba_vote = ''0x67d519fb83383b1b489eab161e4e32ae4f808d6beef9db9e6cde8fff2d84ab44''"
  by (simp only: vote_id_def ba_bytes ba_keccak256)

lemma ab_ba_js_value: "js_value ab_vote" "js_value ba_vote"
  by (simp_all add: ab_vote_def ba_vote_def key_before_def array_index_def is_digit_def
        MAX_SAFE_INTEGER_def)

text \<open>
  C1, as the specification states it: two values that are equal but for the order of their
  object keys get the same identifier.  \<^verbatim>\<open>{"a":1,"b":2}\<close> and \<^verbatim>\<open>{"b":2,"a":1}\<close>
  are such values, both as JavaScript holds them, and their identifiers differ.
\<close>

theorem key_order_counterexample:
  "same_value ab_vote ba_vote \<and> js_value ab_vote \<and> js_value ba_vote
   \<and> vote_id ab_vote = ''0xb8ffb64722137f4b100665a52e3c943f8066e8ab8ba3b427e6f4b404defd82b0''
   \<and> vote_id ba_vote = ''0x67d519fb83383b1b489eab161e4e32ae4f808d6beef9db9e6cde8fff2d84ab44''
   \<and> vote_id ab_vote \<noteq> vote_id ba_vote"
proof -
  have "same_value ab_vote ba_vote"
    by (simp add: same_value_def ab_vote_def ba_vote_def)
  then show ?thesis
    using ab_ba_js_value by (simp add: ab_vote_id ba_vote_id)
qed

lemma created_row:
  assumes "w1 = w\<lparr>log := l, rows := rows w @ [stored_row E key d sr t]\<rparr>"
      and "created_id res = Some (vote_id d)"
  shows "\<exists>row. rows w1 = rows w @ [row] \<and> row_data row = JSON_stringify d
            \<and> row_id row = keccak256 (toUtf8Bytes (JSON_stringify d))
            \<and> created_id res = Some (row_id row)"
  using assms by (intro exI [of _ "stored_row E key d sr t"]) (simp add: stored_row_def vote_id_def)

text \<open>
  C1, amended.  The identifier is a fixed 32-byte value: the Keccak-256 digest of any
  bytes is \<^verbatim>\<open>0x\<close> and 64 lower-case hexadecimal digits, the hexadecimal form of 32
  bytes.  It is repeatable across runs: a create that answers 201 for the payload \<open>d\<close> has
  stored the text \<^verbatim>\<open>JSON.stringify(d)\<close> in a new row and returns, as the id of the row
  and of the answer, the digest of the UTF-8 bytes of this text, whatever the state of
  the store, the operator key and the signature of the caller.  Both revisions.  It is
  not independent of the order of the keys: the text keeps the order in which the keys
  were parsed, and \<^verbatim>\<open>{"a":1,"b":2}\<close> and \<^verbatim>\<open>{"b":2,"a":1}\<close> have the two identifiers
  below.
\<close>

theorem identifier_of_text:
  "id_format_spec (keccak256 bs) \<and> getBytes (keccak256 bs) = Some (keccak256_bytes bs)
   \<and> length (keccak256_bytes bs) = 32
   \<and> (post_votes E key r w = (w1, res) \<and> res_status res = 201 \<longrightarrow>
        (\<exists>d row. req_data r = Some d \<and> rows w1 = rows w @ [row]
            \<and> row_data row = JSON_stringify d
            \<and> row_id row = keccak256 (toUtf8Bytes (JSON_stringify d))
            \<and> created_id res = Some (row_id row)))
   \<and> (post_votes_v1 E key r w = (w1, res) \<and> res_status res = 201 \<longrightarrow>
        (\<exists>d row. req_data r = Some d \<and> rows w1 = rows w @ [row]
            \<and> row_data row = JSON_stringify d
            \<and> row_id row = keccak256 (toUtf8Bytes (JSON_stringify d))
            \<and> created_id res = Some (row_id row)))
   \<and> keccak256 (toUtf8Bytes (JSON_stringify ab_vote))
        = ''0xb8ffb64722137f4b100665a52e3c943f8066e8ab8ba3b427e6f4b404defd82b0''
   \<and> keccak256 (toUtf8Bytes (JSON_stringify ba_vote))
        = ''0x67d519fb83383b1b489eab161e4e32ae4f808d6beef9db9e6cde8fff2d84ab44''"
proof (intro conjI impI)
  show "id_format_spec (keccak256 bs)"
    by (rule keccak256_format)
  show "getBytes (keccak256 bs) = Some (keccak256_bytes bs)"
    by (rule getBytes_keccak256)
  show "length (keccak256_bytes bs) = 32"
    by (rule length_keccak256_bytes)
next
  assume a: "post_votes E key r w = (w1, res) \<and> res_status res = 201"
  then obtain d and vr :: validation_result where d: "req_data r = Some d"
      and w1: "w1 = w\<lparr>log := log w @ [Signed (vote_id_bytes d),
                                        Executed (insert_of E key d (recoveredSigner vr))],
                       rows := rows w @ [stored_row E key d (recoveredSigner vr) (now w)]\<rparr>"
    using post_votes_created [of E key r w w1 res] by blast
  have i: "created_id res = Some (vote_id d)"
    using post_votes_created_id [of E key r w w1 res d] a d by simp
  show "\<exists>d row. req_data r = Some d \<and> rows w1 = rows w @ [row]
            \<and> row_data row = JSON_stringify d
            \<and> row_id row = keccak256 (toUtf8Bytes (JSON_stringify d))
            \<and> created_id res = Some (row_id row)"
    using created_row [OF w1 i] d by blast
next
  assume a: "post_votes_v1 E key r w = (w1, res) \<and> res_status res = 201"
  then obtain d where d: "req_data r = Some d"
      and w1: "w1 = w\<lparr>log := log w @ [Signed (vote_id_bytes d), Executed (insert_of E key d None)],
                       rows := rows w @ [stored_row E key d None (now w)]\<rparr>"
    using post_votes_v1_created [of E key r w w1 res] by blast
  have i: "created_id res = Some (vote_id d)"
    using post_votes_v1_created_id [of E key r w w1 res d] a d by simp
  show "\<exists>d row. req_data r = Some d \<and> rows w1 = rows w @ [row]
            \<and> row_data row = JSON_stringify d
            \<and> row_id row = keccak256 (toUtf8Bytes (JSON_stringify d))
            \<and> created_id res = Some (row_id row)"
    using created_row [OF w1 i] d by blast
next
  show "keccak256 (toUtf8Bytes (JSON_stringify ab_vote))
          = ''0xb8ffb64722137f4b100665a52e3c943f8066e8ab8ba3b427e6f4b404defd82b0''"
    by (simp only: ab_bytes ab_keccak256)
  show "keccak256 (toUtf8Bytes (JSON_stringify ba_vote))
          = ''0x67d519fb83383b1b489eab161e4e32ae4f808d6beef9db9e6cde8fff2d84ab44''"
    by (simp only: ba_bytes ba_keccak256)
qed

theorem identifier_of_text_witness:
  "res_status (snd (post_votes sample_ec sample_key sample_request empty_world)) = 201
   \<and> created_id (snd (post_votes sample_ec sample_key sample_request empty_world))
        = Some (keccak256 (toUtf8Bytes (JSON_stringify sample_vote)))
   \<and> map row_data (rows (fst (post_votes sample_ec sample_key sample_request empty_world)))
        = [JSON_stringify sample_vote]
   \<and> res_status (snd (post_votes_v1 sample_ec sample_key sample_request empty_world)) = 201
   \<and> created_id (snd (post_votes_v1 sample_ec sample_key sample_request empty_world))
        = Some (keccak256 (toUtf8Bytes (JSON_stringify sample_vote)))
   \<and> map row_data (rows (fst (post_votes_v1 sample_ec sample_key sample_request empty_world)))
        = [JSON_stringify sample_vote]
   \<and> id_format_spec (keccak256 [])"
proof -
  have a: "res_status (snd (post_votes sample_ec sample_key sample_request empty_world)) = 201"
    by (simp add: sample_created)
  have b: "res_status (snd (post_votes_v1 sample_ec sample_key sample_request empty_world)) = 201"
    by (simp add: sample_created_v1)
  have d: "req_data sample_request = Some sample_vote" "rows empty_world = []"
    by (simp_all add: sample_request_def empty_world_def)
  show ?thesis
    using a b d
      identifier_of_text [of "[]" sample_ec sample_key sample_request empty_world
        "fst (post_votes sample_ec sample_key sample_request empty_world)"
        "snd (post_votes sample_ec sample_key sample_request empty_world)"]
      identifier_of_text [of "[]" sample_ec sample_key sample_request empty_world
        "fst (post_votes_v1 sample_ec sample_key sample_request empty_world)"
        "snd (post_votes_v1 sample_ec sample_key sample_request empty_world)"]
    by auto
qed

subsection \<open>The size of a payload\<close>

lemma concat_replicate_single: "concat (replicate n [c]) = replicate n c"
  by (induction n) simp_all

lemma length_concat_replicate: "length (concat (replicate n xs)) = n * length xs"
  by (induction n) simp_all

lemma stringify_k_string:
  assumes "quote_char c = [c]"
  shows "JSON_stringify (JObj [(''k'', JStr (replicate n c))]) =
           [CHR ''{'', CHR 0x22, CHR ''k'', CHR 0x22, CHR '':'', CHR 0x22] @ replicate n c @ [CHR 0x22, CHR ''}'']"
proof -
  have k: "QuoteJSONString ''k'' = [CHR 0x22, CHR ''k'', CHR 0x22]"
    by (simp add: QuoteJSONString_def quote_char_def)
  have r: "QuoteJSONString (replicate n c) = CHR 0x22 # replicate n c @ [CHR 0x22]"
    by (simp add: QuoteJSONString_def assms concat_replicate_single)
  show ?thesis
    by (simp add: k r)
qed

lemma quote_a: "quote_char (CHR ''a'') = ''a''"
  by (simp add: quote_char_def)

lemma quote_e9: "quote_char (CHR 0xE9) = [CHR 0xE9]"
  by (simp add: quote_char_def)

lemma big_vote_length: "length (JSON_stringify big_vote) = 1000008"
  unfolding big_vote_def stringify_k_string [OF quote_a] by simp

lemma big_vote_bytes: "length (toUtf8Bytes (JSON_stringify big_vote)) = 1000008"
  unfolding big_vote_def stringify_k_string [OF quote_a]
  by (simp add: toUtf8Bytes_def utf8_char_def length_concat_replicate)

lemma accent_vote_length: "length (JSON_stringify accent_vote) = 600008"
  unfolding accent_vote_def stringify_k_string [OF quote_e9] by simp

lemma accent_vote_bytes: "length (toUtf8Bytes (JSON_stringify accent_vote)) = 1200008"
  unfolding accent_vote_def stringify_k_string [OF quote_e9]
  by (simp add: toUtf8Bytes_def utf8_char_def length_concat_replicate)

lemma signed_request_validate:
  "validateVoteData sample_ec (signed_request (JObj kvs)) = None"
proof -
  let ?s = "signMessage sample_ec sample_key (vote_id_bytes (JObj kvs))"
  have h: "isHexString ?s (Some 65)" by (rule sample_signature_hex)
  then have "?s \<noteq> []" by (auto simp: isHexString_def)
  then show ?thesis
    using isHexString_any_length [OF h]
    by (simp add: validateVoteData_def signed_request_def isHexString_value_def)
qed

lemma signed_request_created:
  "post_votes sample_ec sample_key (signed_request (JObj kvs)) empty_world =
     (empty_world\<lparr>log := [Signed (vote_id_bytes (JObj kvs)),
                          Executed (insert_of sample_ec sample_key (JObj kvs)
                                      (Some (computeAddress sample_ec sample_key)))],
                  rows := [stored_row sample_ec sample_key (JObj kvs)
                             (Some (computeAddress sample_ec sample_key)) 0]\<rparr>,
      \<lparr>res_status = 201,
       res_body = JObj [(''success'', JBool True),
         (''message'', JStr ''Vote saved successfully''),
         (''data'', JObj [(''id'', JStr (vote_id (JObj kvs))),
                          (''signature'', JStr (signMessage sample_ec sample_key (vote_id_bytes (JObj kvs)))),
                          (''signer'', JStr (computeAddress sample_ec sample_key)),
                          (''operator'', JStr (computeAddress sample_ec sample_key))])]\<rparr>)"
proof -
  let ?d = "JObj kvs"
  let ?s = "signMessage sample_ec sample_key (vote_id_bytes ?d)"
  have d: "req_data (signed_request ?d) = Some ?d"
    by (simp add: signed_request_def)
  have s: "req_signature (signed_request ?d) = Some (JStr ?s)" "req_signer (signed_request ?d) = None"
    by (simp_all add: signed_request_def)
  have "isHexString ?s (Some 65)" by (rule sample_signature_hex)
  then have t: "?s \<noteq> []" by (auto simp: isHexString_def)
  have v: "validateSignature sample_ec (Some ?d) (Some (JStr ?s)) None
             = signature_valid (computeAddress sample_ec sample_key)"
    using validateSignature_recovered [of sample_ec ?d "Some (JStr ?s)"
            "computeAddress sample_ec sample_key" None]
          sample_verify [of "vote_id_bytes ?d"]
    by simp
  show ?thesis
    using t
    by (simp add: post_votes_def signed_request_validate handleCreateVote_stored [OF d] s v
          signature_valid_def empty_world_def Let_def opt_str_def)
qed

text \<open>
  C8 at a payload of 1000008 bytes: the first revision answers \<^verbatim>\<open>DATA_TOO_LARGE\<close>
  and leaves the state as it was; the last revision has no such check, lets the request
  through its validation, signs and stores the vote and answers 201.  The check of the
  first revision counts code units, not bytes: it lets a payload of 1200008 bytes and
  600008 code units through.
\<close>

theorem size_limit_not_enforced:
  "length (toUtf8Bytes (JSON_stringify big_vote)) = 1000008
   \<and> post_votes_v1 sample_ec sample_key (signed_request big_vote) empty_world
       = (empty_world, data_too_large)
   \<and> validateVoteData sample_ec (signed_request big_vote) = None
   \<and> res_status (snd (post_votes sample_ec sample_key (signed_request big_vote) empty_world)) = 201
   \<and> map row_id (rows (fst (post_votes sample_ec sample_key (signed_request big_vote) empty_world)))
       = [vote_id big_vote]
   \<and> length (toUtf8Bytes (JSON_stringify accent_vote)) = 1200008
   \<and> length (JSON_stringify accent_vote) = 600008
   \<and> validateVoteData_v1 (signed_request accent_vote) = None"
proof -
  have a: "post_votes_v1 sample_ec sample_key (signed_request big_vote) empty_world
             = (empty_world, data_too_large)"
    using big_vote_length
    by (simp add: post_votes_v1_def validateVoteData_v1_def signed_request_def data_too_large_def)
       (simp add: big_vote_def)
  have b: "validateVoteData_v1 (signed_request accent_vote) = None"
    using accent_vote_length
    by (simp add: validateVoteData_v1_def signed_request_def)
       (simp add: accent_vote_def)
  have c: "validateVoteData sample_ec (signed_request big_vote) = None"
    unfolding big_vote_def by (rule signed_request_validate)
  have d: "res_status (snd (post_votes sample_ec sample_key (signed_request big_vote) empty_world)) = 201"
          "map row_id (rows (fst (post_votes sample_ec sample_key (signed_request big_vote) empty_world)))
             = [vote_id big_vote]"
    unfolding big_vote_def by (simp_all add: signed_request_created stored_row_def)
  show ?thesis
    using a b c d big_vote_bytes accent_vote_bytes accent_vote_length by simp
qed

end
